theory Spec2Isabelle
  imports Complex_Main "HOL-Library.AList"
begin

section \<open>Python values and built-ins used by get-binance-history.py\<close>

text \<open>
  A Python \<open>str\<close> is modelled as a \<^typ>\<open>string\<close>: a list of 8-bit characters, each
  standing for the code point of the same number (so the model covers the strings whose
  code points are below 256). Exceptions are values of \<open>py_error\<close>; a function that can
  raise returns \<open>py_error + 'a\<close>, with \<open>Inl\<close> for the raised exception.
\<close>

datatype py_error =
    FileNotFoundError
  | OSError
  | ValueError
  | TypeError
  | RequestException
  | JSONDecodeError

text \<open>\<open>str(n)\<close> for an integer: decimal digits, a minus sign for a negative number.\<close>

definition digit_char :: "nat \<Rightarrow> char" where
  "digit_char d = ''0123456789'' ! d"

fun str_nat :: "nat \<Rightarrow> string" where
  "str_nat n = (if n < 10 then [digit_char n] else str_nat (n div 10) @ [digit_char (n mod 10)])"

declare str_nat.simps [simp del]

definition str_int :: "int \<Rightarrow> string" where
  "str_int i = (if i < 0 then CHR ''-'' # str_nat (nat (- i)) else str_nat (nat i))"

text \<open>\<open>s.encode('utf-8')\<close>: one byte below 128, two bytes from 128 to 255.\<close>

definition utf8_char :: "char \<Rightarrow> string" where
  "utf8_char c =
     (let n = (of_char c :: nat)
      in if n < 128 then [c] else [char_of (192 + n div 64), char_of (128 + n mod 64)])"

definition encode_utf8 :: "string \<Rightarrow> string" where
  "encode_utf8 s = concat (map utf8_char s)"

text \<open>Two hexadecimal digits of a byte, over a given alphabet of sixteen digits.\<close>

definition hex_byte :: "string \<Rightarrow> char \<Rightarrow> string" where
  "hex_byte alphabet c =
     (let n = (of_char c :: nat) in [alphabet ! (n div 16), alphabet ! (n mod 16)])"

text \<open>\<open>bytes.hex()\<close> / \<open>hexdigest()\<close>: lower-case digits.\<close>

definition hexlify :: "string \<Rightarrow> string" where
  "hexlify bs = concat (map (hex_byte ''0123456789abcdef'') bs)"

text \<open>
  \<open>urllib.parse.quote_plus(s)\<close> with the default \<open>safe=''\<close>: the string is encoded
  as UTF-8; letters, digits and \<open>_.-~\<close> stay, a space becomes \<open>+\<close>, every other
  byte becomes \<open>%XX\<close> with upper-case digits.
\<close>

definition always_safe :: string where
  "always_safe = ''ABCDEFGHIJKLMNOPQRSTUVWXYZabcdefghijklmnopqrstuvwxyz0123456789_.-~''"

definition quote_byte :: "char \<Rightarrow> string" where
  "quote_byte c =
     (if c \<in> set always_safe then [c]
      else if c = CHR '' '' then ''+''
      else CHR ''%'' # hex_byte ''0123456789ABCDEF'' c)"

definition quote_plus :: "string \<Rightarrow> string" where
  "quote_plus s = concat (map quote_byte (encode_utf8 s))"

text \<open>\<open>sep.join(xs)\<close>.\<close>

fun join :: "string \<Rightarrow> string list \<Rightarrow> string" where
  "join sep [] = []"
| "join sep [x] = x"
| "join sep (x # y # ys) = x @ sep @ join sep (y # ys)"

text \<open>
  A request parameter value is an integer or a string. A parameter mapping is a Python
  \<open>dict\<close>, which keeps insertion order: an association list with distinct keys, where
  \<open>d[k] = v\<close> is \<^const>\<open>AList.update\<close> (the value is replaced in place when the key is
  there, the pair is appended when it is not).
\<close>

datatype pval = PInt int | PStr string

type_synonym params = "(string \<times> pval) list"

fun py_str :: "pval \<Rightarrow> string" where
  "py_str (PInt i) = str_int i"
| "py_str (PStr s) = s"

definition urlencode :: "params \<Rightarrow> string" where
  "urlencode ps = join ''&'' (map (\<lambda>(k, v). quote_plus k @ ''='' @ quote_plus (py_str v)) ps)"

text \<open>
  \<open>str.strip\<close>: without an argument it removes leading and trailing whitespace
  (\<open>str.isspace\<close> on the code points below 256); with an argument it removes leading and
  trailing characters that occur in the argument.
\<close>

definition is_space :: "char \<Rightarrow> bool" where
  "is_space c \<longleftrightarrow>
     c \<in> set [CHR 0x09, CHR 0x0A, CHR 0x0B, CHR 0x0C, CHR 0x0D,
              CHR 0x1C, CHR 0x1D, CHR 0x1E, CHR 0x1F, CHR 0x20, CHR 0x85, CHR 0xA0]"

definition strip_where :: "(char \<Rightarrow> bool) \<Rightarrow> string \<Rightarrow> string" where
  "strip_where p s = rev (dropWhile p (rev (dropWhile p s)))"

definition strip :: "string \<Rightarrow> string" where
  "strip s = strip_where is_space s"

definition strip_chars :: "string \<Rightarrow> string \<Rightarrow> string" where
  "strip_chars chars s = strip_where (\<lambda>c. c \<in> set chars) s"

text \<open>\<open>s.split(sep, 1)\<close> for a one-character separator that occurs in \<open>s\<close>.\<close>

definition split_once :: "char \<Rightarrow> string \<Rightarrow> string \<times> string" where
  "split_once sep s = (takeWhile (\<lambda>c. c \<noteq> sep) s, tl (dropWhile (\<lambda>c. c \<noteq> sep) s))"

text \<open>
  Iterating over a file opened in text mode: the lines, each with its newline, where
  \<open>\r\n\<close> and a lone \<open>\r\<close> are read as \<open>\n\<close> (universal newlines); a last line
  without a newline is a line too.
\<close>

fun file_lines :: "string \<Rightarrow> string \<Rightarrow> string list" where
  "file_lines cur [] = (if cur = [] then [] else [cur])"
| "file_lines cur [c] =
     (if c = CHR 0x0A \<or> c = CHR 0x0D then [cur @ [CHR 0x0A]] else [cur @ [c]])"
| "file_lines cur (c # d # ds) =
     (if c = CHR 0x0A then (cur @ [CHR 0x0A]) # file_lines [] (d # ds)
      else if c = CHR 0x0D then
        (if d = CHR 0x0A then (cur @ [CHR 0x0A]) # file_lines [] ds
         else (cur @ [CHR 0x0A]) # file_lines [] (d # ds))
      else file_lines (cur @ [c]) (d # ds))"

section \<open>Configuration: load_env_file and the credentials\<close>

text \<open>What \<open>open(env_path, 'r')\<close> finds: no file, a file that cannot be read, or a text.\<close>

datatype env_file = Missing | Unreadable | Content string

text \<open>The body of the loop of \<open>load_env_file\<close>, for one line of the file.\<close>

definition load_env_line :: "(string \<rightharpoonup> string) \<Rightarrow> string \<Rightarrow> (string \<rightharpoonup> string)" where
  "load_env_line env_vars raw =
     (let line = strip raw
      in if line \<noteq> [] \<and> \<not> (take 1 line = ''#'') \<and> CHR ''='' \<in> set line
         then (let (key, val) = split_once CHR ''='' line
               in env_vars(strip key \<mapsto> strip_chars [CHR 0x27] (strip_chars [CHR 0x22] (strip val))))
         else env_vars)"

definition load_env_file :: "env_file \<Rightarrow> py_error + (string \<rightharpoonup> string)" where
  "load_env_file f =
     (case f of
        Missing \<Rightarrow> Inr Map.empty
      | Unreadable \<Rightarrow> Inl OSError
      | Content s \<Rightarrow> Inr (foldl load_env_line Map.empty (file_lines [] s)))"

text \<open>
  \<open>env_vars.get(key) or os.getenv(key)\<close>: the first operand when it is truthy (a
  non-empty string), the second operand otherwise.
\<close>

definition get_or_getenv ::
  "(string \<rightharpoonup> string) \<Rightarrow> (string \<rightharpoonup> string) \<Rightarrow> string \<Rightarrow> string option" where
  "get_or_getenv env_vars environ key =
     (case env_vars key of
        Some v \<Rightarrow> if v \<noteq> [] then Some v else environ key
      | None \<Rightarrow> environ key)"

definition falsy_str :: "string option \<Rightarrow> bool" where
  "falsy_str v \<longleftrightarrow> (case v of None \<Rightarrow> True | Some s \<Rightarrow> s = [])"

text \<open>
  The module's start (lines 26 to 34): the two credentials, or the \<open>ValueError\<close> raised
  when one of them is missing or empty.
\<close>

definition credentials ::
  "env_file \<Rightarrow> (string \<rightharpoonup> string) \<Rightarrow> py_error + (string option \<times> string option)" where
  "credentials f environ =
     (case load_env_file f of
        Inl e \<Rightarrow> Inl e
      | Inr env_vars \<Rightarrow>
          (let BINANCE_API_KEY = get_or_getenv env_vars environ ''BINANCE_API_KEY'';
               BINANCE_SECRET_KEY = get_or_getenv env_vars environ ''BINANCE_SECRET_KEY''
           in if falsy_str BINANCE_API_KEY \<or> falsy_str BINANCE_SECRET_KEY then Inl ValueError
              else Inr (BINANCE_API_KEY, BINANCE_SECRET_KEY)))"

section \<open>The client: class BinanceAPI\<close>

record BinanceAPI =
  api_key :: string
  secret_key :: string
  base_url :: string

definition init :: "string \<Rightarrow> string \<Rightarrow> BinanceAPI" where
  "init k s = \<lparr>api_key = k, secret_key = s, base_url = ''https://api.binance.com''\<rparr>"

text \<open>What \<open>requests.get(url, params=params, headers=headers)\<close> is called with.\<close>

record request =
  req_url :: string
  req_params :: params
  req_headers :: "(string \<times> string) list"

text \<open>
  The decoded bodies the main flow reads: the account object, of which the code reads
  \<open>balances\<close> and of each balance \<open>asset\<close>, \<open>free\<close> and \<open>locked\<close>; and a list of
  orders, with the fields the code reads. The amounts are decimal strings; \<open>time\<close> is in
  epoch milliseconds.
\<close>

record balance =
  asset :: string
  free :: string
  locked :: string

record account_info =
  balances :: "balance list"

record order =
  order_symbol :: string
  orderId :: int
  side :: string
  order_type :: string
  origQty :: string
  price :: string
  status :: string
  time :: int

datatype body = Account account_info | OrderList "order list"

text \<open>
  A response: its \<open>status_code\<close>, its \<open>text\<close>, and what \<open>response.json()\<close> returns
  (\<open>None\<close> when the text is not JSON and \<open>json()\<close> raises). \<open>requests.get\<close> itself either
  raises or returns a response.
\<close>

record response =
  status_code :: int
  body_text :: string
  json :: "body option"

datatype outcome = Raises | Response response

text \<open>
  What the script takes from the standard library and from the outside, as parameters:
  the HMAC-SHA256 digest (key bytes, message bytes, the digest bytes); the clock,
  \<open>int(time.time() * 1000)\<close> at the k-th request of the run; the HTTP transport, whose
  answer to a request may depend on the number of requests before it; \<open>float(s)\<close> of a
  string (\<open>None\<close> when it raises ValueError; only the comparison with 0 is read); and the
  order in which \<open>list(set(xs))\<close> enumerates a set, which Python leaves unspecified.
\<close>

record platform =
  hmac_sha256 :: "string \<Rightarrow> string \<Rightarrow> string"
  time_ms :: "nat \<Rightarrow> int"
  requests_get :: "nat \<Rightarrow> request \<Rightarrow> outcome"
  float_of :: "string \<Rightarrow> rat option"
  list_of_set :: "string list \<Rightarrow> string list"

text \<open>The state a run changes: the requests issued so far, and the lines printed.\<close>

record world =
  sent :: "request list"
  stdout :: "string list"

text \<open>\<open>_generate_signature\<close>.\<close>

definition generate_signature :: "platform \<Rightarrow> BinanceAPI \<Rightarrow> string \<Rightarrow> string" where
  "generate_signature pf self query_string =
     hexlify (hmac_sha256 pf (encode_utf8 (secret_key self)) (encode_utf8 query_string))"

text \<open>
  Lines 52 to 65 of \<open>_make_request\<close>: the query string that is signed, and the
  parameters that are transmitted.
\<close>

definition sign_params :: "platform \<Rightarrow> BinanceAPI \<Rightarrow> int \<Rightarrow> params option \<Rightarrow> string \<times> params" where
  "sign_params pf self now params0 =
     (let params = (case params0 of None \<Rightarrow> [] | Some p \<Rightarrow> p);
          params = AList.update ''timestamp'' (PInt now) params;
          query_string = urlencode params;
          signature = generate_signature pf self query_string;
          params = AList.update ''signature'' (PStr signature) params
      in (query_string, params))"

text \<open>\<open>_make_request\<close>.\<close>

definition make_request ::
  "platform \<Rightarrow> BinanceAPI \<Rightarrow> string \<Rightarrow> params option \<Rightarrow> world \<Rightarrow> (py_error + body option) \<times> world" where
  "make_request pf self endpoint params0 w =
     (let k = length (sent w);
          (query_string, params) = sign_params pf self (time_ms pf k) params0;
          headers = [(''X-MBX-APIKEY'', api_key self)];
          url = base_url self @ endpoint;
          req = \<lparr>req_url = url, req_params = params, req_headers = headers\<rparr>;
          w1 = w\<lparr>sent := sent w @ [req]\<rparr>
      in case requests_get pf k req of
           Raises \<Rightarrow> (Inl RequestException, w1)
         | Response r \<Rightarrow>
             if status_code r = 200 then
               (case json r of
                  None \<Rightarrow> (Inl JSONDecodeError, w1)
                | Some b \<Rightarrow> (Inr (Some b), w1))
             else
               (Inr None,
                w1\<lparr>stdout := stdout w1 @
                  [''Erreur API: '' @ str_int (status_code r), ''Message: '' @ body_text r]\<rparr>))"

text \<open>
  The \<open>symbol\<close> argument is \<open>None\<close> or a string; \<open>if symbol:\<close> holds for a non-empty
  string.
\<close>

definition optional_symbol :: "string option \<Rightarrow> params \<Rightarrow> params" where
  "optional_symbol symbol params =
     (case symbol of
        None \<Rightarrow> params
      | Some s \<Rightarrow> if s \<noteq> [] then AList.update ''symbol'' (PStr s) params else params)"

definition get_last_trade ::
  "platform \<Rightarrow> BinanceAPI \<Rightarrow> string option \<Rightarrow> int \<Rightarrow> world \<Rightarrow> (py_error + body option) \<times> world" where
  "get_last_trade pf self symbol limit w =
     (let endpoint = ''/api/v3/myTrades'';
          params = [(''limit'', PInt limit)];
          params = optional_symbol symbol params
      in make_request pf self endpoint (Some params) w)"

definition get_account_info ::
  "platform \<Rightarrow> BinanceAPI \<Rightarrow> world \<Rightarrow> (py_error + body option) \<times> world" where
  "get_account_info pf self w = make_request pf self ''/api/v3/account'' None w"

definition get_open_orders ::
  "platform \<Rightarrow> BinanceAPI \<Rightarrow> world \<Rightarrow> (py_error + body option) \<times> world" where
  "get_open_orders pf self w = make_request pf self ''/api/v3/openOrders'' None w"

definition get_all_orders ::
  "platform \<Rightarrow> BinanceAPI \<Rightarrow> string option \<Rightarrow> int \<Rightarrow> world \<Rightarrow> (py_error + body option) \<times> world" where
  "get_all_orders pf self symbol limit w =
     (let endpoint = ''/api/v3/allOrders'';
          params = [(''limit'', PInt limit)];
          params = optional_symbol symbol params
      in make_request pf self endpoint (Some params) w)"

section \<open>get_recent_filled_orders\<close>

text \<open>
  Truthiness of what \<open>_make_request\<close> returned: \<open>None\<close> and an empty list are falsy,
  the account object (a dict with keys) is truthy.
\<close>

fun truthy :: "body option \<Rightarrow> bool" where
  "truthy None = False"
| "truthy (Some (Account a)) = True"
| "truthy (Some (OrderList orders)) = (orders \<noteq> [])"

text \<open>
  \<open>account_info['balances']\<close>: the balances of the account object; a list cannot be
  indexed by a string.
\<close>

fun balances_of :: "body \<Rightarrow> py_error + balance list" where
  "balances_of (Account a) = Inr (balances a)"
| "balances_of (OrderList orders) = Inl TypeError"

text \<open>
  Line 130, \<open>float(balance['free']) > 0 or float(balance['locked']) > 0\<close>: \<open>or\<close> reads
  its second operand only when the first is false, and \<open>float\<close> raises ValueError on a
  string that is not a number.
\<close>

definition has_balance :: "platform \<Rightarrow> balance \<Rightarrow> py_error + bool" where
  "has_balance pf b =
     (case float_of pf (free b) of
        None \<Rightarrow> Inl ValueError
      | Some x \<Rightarrow>
          if x > 0 then Inr True
          else (case float_of pf (locked b) of
                  None \<Rightarrow> Inl ValueError
                | Some y \<Rightarrow> Inr (y > 0)))"

definition common_pairs :: "string \<Rightarrow> string list" where
  "common_pairs a = [a @ ''USDT'', a @ ''BTC'', a @ ''ETH'', ''BTC'' @ a, ''ETH'' @ a]"

definition popular_symbols :: "string list" where
  "popular_symbols = [''BTCUSDT'', ''ETHUSDT'', ''BNBUSDT'', ''ADAUSDT'', ''SOLUSDT'']"

text \<open>The loop of lines 129 to 134, over the balances left, with the list built so far.\<close>

fun collect_pairs :: "platform \<Rightarrow> balance list \<Rightarrow> string list \<Rightarrow> py_error + string list" where
  "collect_pairs pf [] acc = Inr acc"
| "collect_pairs pf (b # bs) acc =
     (case has_balance pf b of
        Inl e \<Rightarrow> Inl e
      | Inr pos \<Rightarrow>
          if pos then collect_pairs pf bs (acc @ common_pairs (asset b))
          else collect_pairs pf bs acc)"

text \<open>Lines 128 to 141: the candidate symbols, without duplicates.\<close>

definition symbols_with_balance :: "platform \<Rightarrow> balance list \<Rightarrow> py_error + string list" where
  "symbols_with_balance pf bals =
     (case collect_pairs pf bals [] of
        Inl e \<Rightarrow> Inl e
      | Inr syms \<Rightarrow> Inr (list_of_set pf (syms @ popular_symbols)))"

text \<open>
  Line 149, the list comprehension over what \<open>get_all_orders\<close> returned: the FILLED
  orders of a list of orders; iterating the account object gives its keys, and indexing
  a key (a string) with \<open>'status'\<close> raises TypeError.
\<close>

fun filled_orders :: "body \<Rightarrow> py_error + order list" where
  "filled_orders (OrderList orders) = Inr (filter (\<lambda>order. status order = ''FILLED'') orders)"
| "filled_orders (Account a) = Inl TypeError"

text \<open>
  The loop of lines 144 to 152 over the symbols left, with \<open>all_filled_orders\<close> so far:
  whatever is raised inside \<open>try\<close> ends the turn of that symbol and nothing else.
\<close>

fun scan_symbols ::
  "platform \<Rightarrow> BinanceAPI \<Rightarrow> string list \<Rightarrow> order list \<Rightarrow> world \<Rightarrow> order list \<times> world" where
  "scan_symbols pf self [] all_filled_orders w = (all_filled_orders, w)"
| "scan_symbols pf self (symbol # rest) all_filled_orders w =
     (case get_all_orders pf self (Some symbol) 20 w of
        (Inl e, w') \<Rightarrow> scan_symbols pf self rest all_filled_orders w'
      | (Inr orders, w') \<Rightarrow>
          if truthy orders then
            (case orders of
               None \<Rightarrow> scan_symbols pf self rest all_filled_orders w'
             | Some b \<Rightarrow>
                 (case filled_orders b of
                    Inl e \<Rightarrow> scan_symbols pf self rest all_filled_orders w'
                  | Inr filled \<Rightarrow> scan_symbols pf self rest (all_filled_orders @ filled) w'))
          else scan_symbols pf self rest all_filled_orders w')"

text \<open>\<open>xs[:n]\<close>: the first n elements, or all but the last \<open>-n\<close> when n is negative.\<close>

definition slice_to :: "'a list \<Rightarrow> int \<Rightarrow> 'a list" where
  "slice_to xs n = (if n \<ge> 0 then take (nat n) xs else take (length xs - nat (- n)) xs)"

text \<open>
  \<open>xs.sort(key=lambda x: x['time'], reverse=True)\<close>: by time, latest first; the sort is
  stable, also with \<open>reverse=True\<close> (orders of equal time keep their order).
\<close>

definition sort_by_time_desc :: "order list \<Rightarrow> order list" where
  "sort_by_time_desc xs = sort_key (\<lambda>x. - time x) xs"

definition get_recent_filled_orders ::
  "platform \<Rightarrow> BinanceAPI \<Rightarrow> int \<Rightarrow> world \<Rightarrow> (py_error + order list) \<times> world" where
  "get_recent_filled_orders pf self limit w =
     (case get_account_info pf self w of
        (Inl e, w1) \<Rightarrow> (Inl e, w1)
      | (Inr account_info, w1) \<Rightarrow>
          if \<not> truthy account_info then (Inr [], w1)
          else
            (case account_info of
               None \<Rightarrow> (Inr [], w1)
             | Some b \<Rightarrow>
                 (case balances_of b of
                    Inl e \<Rightarrow> (Inl e, w1)
                  | Inr bals \<Rightarrow>
                      (case symbols_with_balance pf bals of
                         Inl e \<Rightarrow> (Inl e, w1)
                       | Inr symbols \<Rightarrow>
                           (let (all_filled_orders, w2) = scan_symbols pf self (take 15 symbols) [] w1
                            in if all_filled_orders \<noteq> []
                               then (Inr (slice_to (sort_by_time_desc all_filled_orders) limit), w2)
                               else (Inr [], w2))))))"

section \<open>Notions used in the statements\<close>

text \<open>
  \<open>list(set(xs))\<close> enumerates the elements of \<open>xs\<close>, each once, in some order: this is
  all that is assumed of \<open>list_of_set\<close>.
\<close>

definition set_order_ok :: "platform \<Rightarrow> bool" where
  "set_order_ok pf \<longleftrightarrow> (\<forall>xs. distinct (list_of_set pf xs) \<and> set (list_of_set pf xs) = set xs)"

text \<open>A balance with \<open>free > 0\<close> or \<open>locked > 0\<close>.\<close>

definition funded :: "platform \<Rightarrow> balance \<Rightarrow> bool" where
  "funded pf b \<longleftrightarrow>
     (case float_of pf (free b) of None \<Rightarrow> False | Some x \<Rightarrow> x > 0)
     \<or> (case float_of pf (locked b) of None \<Rightarrow> False | Some y \<Rightarrow> y > 0)"

text \<open>
  The FILLED orders that an outcome of the transport holds: those of the list of orders
  in a response of status 200, and none in any other outcome.
\<close>

definition filled_in :: "outcome \<Rightarrow> order list" where
  "filled_in out =
     (case out of
        Raises \<Rightarrow> []
      | Response r \<Rightarrow>
          if status_code r = 200 then
            (case json r of
               Some (OrderList orders) \<Rightarrow> filter (\<lambda>order. status order = ''FILLED'') orders
             | _ \<Rightarrow> [])
          else [])"

text \<open>
  A request to \<open>/api/v3/allOrders\<close> for the 20 latest orders of a symbol, as the scan
  issues it.
\<close>

definition orders_request :: "BinanceAPI \<Rightarrow> string \<Rightarrow> request \<Rightarrow> bool" where
  "orders_request self s req \<longleftrightarrow>
     req_url req = base_url self @ ''/api/v3/allOrders''
     \<and> map_of (req_params req) ''symbol'' = Some (PStr s)
     \<and> map_of (req_params req) ''limit'' = Some (PInt 20)"

text \<open>
  A text file given by its lines: each line is followed by a newline and holds no line
  break itself.
\<close>

definition text_of_lines :: "string list \<Rightarrow> string" where
  "text_of_lines ls = concat (map (\<lambda>l. l @ [CHR 0x0A]) ls)"

definition one_line :: "string \<Rightarrow> bool" where
  "one_line l \<longleftrightarrow> CHR 0x0A \<notin> set l \<and> CHR 0x0D \<notin> set l"

section \<open>Fixtures\<close>

text \<open>
  Concrete inputs on which the theorems below are instantiated. \<open>toy_mac\<close> stands in
  for the digest function (the theorems hold for every digest function); the clock starts
  at 1700000000000 ms and advances by one per request.
\<close>

definition toy_mac :: "string \<Rightarrow> string \<Rightarrow> string" where
  "toy_mac key msg = key @ msg"

definition client :: BinanceAPI where
  "client = init ''k'' ''s''"

definition fresh :: world where
  "fresh = \<lparr>sent = [], stdout = []\<rparr>"

definition teapot :: response where
  "teapot = \<lparr>status_code = 418, body_text = ''I am a teapot'', json = None\<rparr>"

definition no_orders :: response where
  "no_orders = \<lparr>status_code = 200, body_text = ''[]'', json = Some (OrderList [])\<rparr>"

definition fixture_float :: "string \<Rightarrow> rat option" where
  "fixture_float s =
     (if s = ''0.00000000'' then Some 0
      else if s = ''1.00000000'' then Some 1
      else if s = ''2.00000000'' then Some 2
      else None)"

definition fixture_platform :: "(nat \<Rightarrow> request \<Rightarrow> outcome) \<Rightarrow> platform" where
  "fixture_platform http =
     \<lparr>hmac_sha256 = toy_mac, time_ms = (\<lambda>k. 1700000000000 + int k), requests_get = http,
      float_of = fixture_float, list_of_set = remdups\<rparr>"

text \<open>
  An exchange for the tests of the fill scanner: the account holds the given balances;
  BTCUSDT has two FILLED orders, of times 100 and 300, and an open one; ETHUSDT has one
  FILLED order, of time 200; the request for BNBUSDT fails in the transport; every other
  symbol is refused with status 400.
\<close>

definition an_order :: "string \<Rightarrow> int \<Rightarrow> string \<Rightarrow> int \<Rightarrow> order" where
  "an_order s i st t =
     \<lparr>order_symbol = s, orderId = i, side = ''BUY'', order_type = ''LIMIT'',
      origQty = ''1.00000000'', price = ''10.00000000'', status = st, time = t\<rparr>"

definition ok :: "body \<Rightarrow> response" where
  "ok b = \<lparr>status_code = 200, body_text = ''(json)'', json = Some b\<rparr>"

definition btc_orders :: "order list" where
  "btc_orders =
     [an_order ''BTCUSDT'' 1 ''FILLED'' 100, an_order ''BTCUSDT'' 2 ''NEW'' 250,
      an_order ''BTCUSDT'' 3 ''FILLED'' 300]"

definition eth_orders :: "order list" where
  "eth_orders = [an_order ''ETHUSDT'' 4 ''FILLED'' 200]"

definition fixture_http :: "balance list \<Rightarrow> nat \<Rightarrow> request \<Rightarrow> outcome" where
  "fixture_http bals k req =
     (if req_url req = ''https://api.binance.com/api/v3/account''
        then Response (ok (Account \<lparr>balances = bals\<rparr>))
      else if map_of (req_params req) ''symbol'' = Some (PStr ''BTCUSDT'')
        then Response (ok (OrderList btc_orders))
      else if map_of (req_params req) ''symbol'' = Some (PStr ''ETHUSDT'')
        then Response (ok (OrderList eth_orders))
      else if map_of (req_params req) ''symbol'' = Some (PStr ''BNBUSDT'')
        then Raises
      else Response \<lparr>status_code = 400, body_text = ''Invalid symbol.'', json = None\<rparr>)"

definition no_balance :: "balance list" where
  "no_balance = [\<lparr>asset = ''USDT'', free = ''0.00000000'', locked = ''0.00000000''\<rparr>]"

definition btc_eth_balances :: "balance list" where
  "btc_eth_balances =
     [\<lparr>asset = ''BTC'', free = ''1.00000000'', locked = ''0.00000000''\<rparr>,
      \<lparr>asset = ''ETH'', free = ''2.00000000'', locked = ''0.00000000''\<rparr>,
      \<lparr>asset = ''USDT'', free = ''0.00000000'', locked = ''0.00000000''\<rparr>]"

definition four_funded :: "balance list" where
  "four_funded =
     [\<lparr>asset = ''BTC'', free = ''1.00000000'', locked = ''0.00000000''\<rparr>,
      \<lparr>asset = ''ETH'', free = ''2.00000000'', locked = ''0.00000000''\<rparr>,
      \<lparr>asset = ''XRP'', free = ''1.00000000'', locked = ''0.00000000''\<rparr>,
      \<lparr>asset = ''LTC'', free = ''0.00000000'', locked = ''2.00000000''\<rparr>]"

text \<open>Configuration files and process environments.\<close>

definition env_text :: string where
  "env_text = text_of_lines
     [''# Binance credentials'', [], ''BINANCE_API_KEY = '' @ [CHR 0x22] @ ''file key'' @ [CHR 0x22] @ ''  '',
      ''export'', ''BINANCE_SECRET_KEY='' @ [CHR 0x27] @ ''a=b'' @ [CHR 0x27]]"

definition env_text_empty_secret :: string where
  "env_text_empty_secret = text_of_lines [''BINANCE_API_KEY=filekey'', ''BINANCE_SECRET_KEY='']"

definition environ_both :: "string \<rightharpoonup> string" where
  "environ_both = [''BINANCE_API_KEY'' \<mapsto> ''envkey'', ''BINANCE_SECRET_KEY'' \<mapsto> ''envsecret'']"

section \<open>Evaluation of the Python built-ins on concrete strings\<close>

lemmas py_eval = str_int_def str_nat.simps digit_char_def quote_plus_def encode_utf8_def
  utf8_char_def quote_byte_def always_safe_def hex_byte_def urlencode_def hexlify_def

section \<open>The signer\<close>

lemma hex_digit_lower: "n < 16 \<Longrightarrow> ''0123456789abcdef'' ! n \<in> set ''0123456789abcdef''"
  by (rule nth_mem) simp

lemma hex_byte_lower: "set (hex_byte ''0123456789abcdef'' c) \<subseteq> set ''0123456789abcdef''"
proof -
  have hi: "(of_char c :: nat) div 16 < 16"
    using nat_of_char_less_256 [of c] by (simp add: less_mult_imp_div_less)
  have lo: "(of_char c :: nat) mod 16 < 16"
    by simp
  show ?thesis
    unfolding hex_byte_def Let_def
    using hex_digit_lower [OF hi] hex_digit_lower [OF lo] by simp
qed

lemma hexlify_digits: "set (hexlify bs) \<subseteq> set ''0123456789abcdef''"
  unfolding hexlify_def using hex_byte_lower by (induction bs) auto

lemma length_hexlify: "length (hexlify bs) = 2 * length bs"
  unfolding hexlify_def by (induction bs) (simp_all add: hex_byte_def Let_def)

text \<open>
  C8. The signature depends on the secret key and the query string only: two calls with
  the same secret key and the same query string give the same digest, whatever else the
  two client objects hold (API key, base URL); the function takes and returns no state.
  The digest is written in lower-case hexadecimal digits, two for each byte of the MAC.
\<close>

theorem generate_signature_deterministic:
  "secret_key self1 = secret_key self2 \<Longrightarrow> q1 = q2 \<Longrightarrow>
     generate_signature pf self1 q1 = generate_signature pf self2 q2
     \<and> set (generate_signature pf self1 q1) \<subseteq> set ''0123456789abcdef''
     \<and> length (generate_signature pf self1 q1) =
         2 * length (hmac_sha256 pf (encode_utf8 (secret_key self1)) (encode_utf8 q1))"
  using hexlify_digits [of "hmac_sha256 pf (encode_utf8 (secret_key self2)) (encode_utf8 q2)"]
  by (simp add: generate_signature_def length_hexlify)

theorem generate_signature_deterministic_witness:
  "generate_signature (fixture_platform (\<lambda>k req. Raises)) (init ''key1'' ''s'') ''a=1''
     = generate_signature (fixture_platform (\<lambda>k req. Raises)) (init ''key2'' ''s'') ''a=1''
   \<and> generate_signature (fixture_platform (\<lambda>k req. Raises)) (init ''key1'' ''s'') ''a=1''
     = ''73613d31''"
  using generate_signature_deterministic [of "init ''key1'' ''s''" "init ''key2'' ''s''"
      "''a=1''" "''a=1''" "fixture_platform (\<lambda>k req. Raises)"]
  by (simp add: init_def generate_signature_def fixture_platform_def toy_mac_def py_eval)

section \<open>The request executor\<close>

lemma update_absent: "k \<notin> fst ` set al \<Longrightarrow> AList.update k v al = al @ [(k, v)]"
  by (induction al) auto

lemma sent_make_request:
  "sent (snd (make_request pf self endpoint params0 w)) =
     sent w @ [\<lparr>req_url = base_url self @ endpoint,
                req_params = snd (sign_params pf self (time_ms pf (length (sent w))) params0),
                req_headers = [(''X-MBX-APIKEY'', api_key self)]\<rparr>]"
  by (simp add: make_request_def Let_def case_prod_beta split: outcome.splits option.splits)

text \<open>
  C3, as amended. When the parameter mapping given to \<open>_make_request\<close> has no
  \<open>signature\<close> key of its own (\<open>None\<close> counts as the empty mapping): the mapping that is
  signed is the given one with \<open>timestamp\<close> set to the clock reading; the query string
  signed is its URL encoding, in insertion order; it has a \<open>timestamp\<close> and no
  \<open>signature\<close> field; and the parameters transmitted are the signed mapping followed by
  \<open>signature\<close>, whose value is the digest of that query string.
\<close>

theorem signature_over_timestamped_params:
  assumes "p = (case params0 of None \<Rightarrow> [] | Some d \<Rightarrow> d)"
    and "''signature'' \<notin> fst ` set p"
    and "signed = AList.update ''timestamp'' (PInt now) p"
  shows "sign_params pf self now params0 =
           (urlencode signed,
            signed @ [(''signature'', PStr (generate_signature pf self (urlencode signed)))])
       \<and> map_of signed ''timestamp'' = Some (PInt now)
       \<and> ''signature'' \<notin> fst ` set signed
       \<and> (now = time_ms pf (length (sent w)) \<longrightarrow>
            map req_params (sent (snd (make_request pf self endpoint params0 w))) =
              map req_params (sent w) @
              [signed @ [(''signature'', PStr (generate_signature pf self (urlencode signed)))]])"
proof -
  have a: "''signature'' \<notin> fst ` set signed"
    using assms by (simp add: AList.dom_update)
  have b: "sign_params pf self now params0 =
           (urlencode signed,
            signed @ [(''signature'', PStr (generate_signature pf self (urlencode signed)))])"
    unfolding sign_params_def Let_def assms(1) [symmetric] assms(3) [symmetric]
    by (simp add: update_absent [OF a])
  have c: "map_of signed ''timestamp'' = Some (PInt now)"
    using assms(3) by (simp add: AList.update_conv')
  show ?thesis
    using a b c by (auto simp add: sent_make_request)
qed

theorem signature_over_timestamped_params_witness:
  "sign_params (fixture_platform (\<lambda>k req. Response teapot)) client 1700000000000
      (Some [(''limit'', PInt 20), (''symbol'', PStr ''BTCUSDT'')]) =
     (''limit=20&symbol=BTCUSDT&timestamp=1700000000000'',
      [(''limit'', PInt 20), (''symbol'', PStr ''BTCUSDT''), (''timestamp'', PInt 1700000000000),
       (''signature'', PStr (generate_signature (fixture_platform (\<lambda>k req. Response teapot)) client
           ''limit=20&symbol=BTCUSDT&timestamp=1700000000000''))])
   \<and> map req_params (sent (snd (make_request (fixture_platform (\<lambda>k req. Response teapot)) client
        ''/api/v3/allOrders'' (Some [(''limit'', PInt 20), (''symbol'', PStr ''BTCUSDT'')]) fresh))) =
     [[(''limit'', PInt 20), (''symbol'', PStr ''BTCUSDT''), (''timestamp'', PInt 1700000000000),
       (''signature'', PStr (generate_signature (fixture_platform (\<lambda>k req. Response teapot)) client
           ''limit=20&symbol=BTCUSDT&timestamp=1700000000000''))]]"
proof -
  have absent: "''signature'' \<notin> fst ` set [(''limit'', PInt 20), (''symbol'', PStr ''BTCUSDT'')]"
    by simp
  have enc: "urlencode (AList.update ''timestamp'' (PInt 1700000000000)
        [(''limit'', PInt 20), (''symbol'', PStr ''BTCUSDT'')]) =
      ''limit=20&symbol=BTCUSDT&timestamp=1700000000000''"
    by (simp add: py_eval)
  have now: "1700000000000 = time_ms (fixture_platform (\<lambda>k req. Response teapot)) (length (sent fresh))"
    by (simp add: fixture_platform_def fresh_def)
  note t = signature_over_timestamped_params
    [where ?params0.0 = "Some [(''limit'', PInt 20), (''symbol'', PStr ''BTCUSDT'')]"
      and now = 1700000000000 and pf = "fixture_platform (\<lambda>k req. Response teapot)"
      and self = client and w = fresh and endpoint = "''/api/v3/allOrders''",
      OF _ absent refl, unfolded enc]
  have t': "sign_params (fixture_platform (\<lambda>k req. Response teapot)) client 1700000000000
      (Some [(''limit'', PInt 20), (''symbol'', PStr ''BTCUSDT'')]) =
     (''limit=20&symbol=BTCUSDT&timestamp=1700000000000'',
      AList.update ''timestamp'' (PInt 1700000000000)
        [(''limit'', PInt 20), (''symbol'', PStr ''BTCUSDT'')] @
      [(''signature'', PStr (generate_signature (fixture_platform (\<lambda>k req. Response teapot)) client
           ''limit=20&symbol=BTCUSDT&timestamp=1700000000000''))])"
    and t'': "map req_params (sent (snd (make_request (fixture_platform (\<lambda>k req. Response teapot)) client
        ''/api/v3/allOrders'' (Some [(''limit'', PInt 20), (''symbol'', PStr ''BTCUSDT'')]) fresh))) =
      map req_params (sent fresh) @
      [AList.update ''timestamp'' (PInt 1700000000000)
        [(''limit'', PInt 20), (''symbol'', PStr ''BTCUSDT'')] @
       [(''signature'', PStr (generate_signature (fixture_platform (\<lambda>k req. Response teapot)) client
           ''limit=20&symbol=BTCUSDT&timestamp=1700000000000''))]]"
    using t now by simp_all
  show ?thesis
    unfolding t' t'' by (simp add: fresh_def)
qed

text \<open>
  Without that condition the statement fails. For a mapping that already has a
  \<open>signature\<close> key, the key
  is part of the signed query string, and the digest then replaces its value in place, in
  front of \<open>timestamp\<close>, instead of being appended.
\<close>

theorem signature_field_signed_counterexample:
  "sign_params (fixture_platform (\<lambda>k req. Response teapot)) client 5
      (Some [(''signature'', PStr ''abc'')]) =
     (''signature=abc&timestamp=5'',
      [(''signature'', PStr (generate_signature (fixture_platform (\<lambda>k req. Response teapot)) client
           ''signature=abc&timestamp=5'')),
       (''timestamp'', PInt 5)])"
  by (simp add: sign_params_def Let_def py_eval)

text \<open>
  C4. Whatever response the transport returns to the request: when its status is not
  200, \<open>_make_request\<close> returns \<open>None\<close> without raising, has printed the status code and
  the body text, and has issued that one request and no other; when its status is 200
  and the body parses, it returns the parsed body and prints nothing.
\<close>

theorem make_request_status:
  assumes "req = \<lparr>req_url = base_url self @ endpoint,
                  req_params = snd (sign_params pf self (time_ms pf (length (sent w))) params0),
                  req_headers = [(''X-MBX-APIKEY'', api_key self)]\<rparr>"
    and "requests_get pf (length (sent w)) req = Response r"
  shows "(status_code r \<noteq> 200 \<longrightarrow>
            make_request pf self endpoint params0 w =
              (Inr None,
               \<lparr>sent = sent w @ [req],
                stdout = stdout w @ [''Erreur API: '' @ str_int (status_code r),
                                     ''Message: '' @ body_text r]\<rparr>))
       \<and> (status_code r = 200 \<longrightarrow> json r = Some b \<longrightarrow>
            make_request pf self endpoint params0 w =
              (Inr (Some b), \<lparr>sent = sent w @ [req], stdout = stdout w\<rparr>))"
  using assms
  by (simp add: make_request_def Let_def case_prod_beta)

theorem make_request_status_witness:
  "make_request (fixture_platform (\<lambda>k req. Response teapot)) client ''/api/v3/account'' None fresh =
     (Inr None,
      \<lparr>sent = [\<lparr>req_url = ''https://api.binance.com/api/v3/account'',
                req_params = snd (sign_params (fixture_platform (\<lambda>k req. Response teapot)) client
                                   1700000000000 None),
                req_headers = [(''X-MBX-APIKEY'', ''k'')]\<rparr>],
       stdout = [''Erreur API: 418'', ''Message: I am a teapot'']\<rparr>)
   \<and> make_request (fixture_platform (\<lambda>k req. Response no_orders)) client ''/api/v3/openOrders'' None fresh =
     (Inr (Some (OrderList [])),
      \<lparr>sent = [\<lparr>req_url = ''https://api.binance.com/api/v3/openOrders'',
                req_params = snd (sign_params (fixture_platform (\<lambda>k req. Response no_orders)) client
                                   1700000000000 None),
                req_headers = [(''X-MBX-APIKEY'', ''k'')]\<rparr>],
       stdout = []\<rparr>)"
  using make_request_status [where pf = "fixture_platform (\<lambda>k req. Response teapot)" and self = client
      and endpoint = "''/api/v3/account''" and ?params0.0 = None and w = fresh and r = teapot, OF refl]
    make_request_status [where pf = "fixture_platform (\<lambda>k req. Response no_orders)" and self = client
      and endpoint = "''/api/v3/openOrders''" and ?params0.0 = None and w = fresh and r = no_orders
      and b = "OrderList []", OF refl]
  by (simp add: fixture_platform_def client_def init_def fresh_def teapot_def no_orders_def
      str_int_def str_nat.simps digit_char_def)

text \<open>
  C9. With \<open>symbol\<close> \<open>None\<close> or the empty string, \<open>get_all_orders\<close> and
  \<open>get_last_trade\<close> hand \<open>_make_request\<close> a mapping that holds \<open>limit\<close> only, and the
  request transmitted has the keys \<open>limit\<close>, \<open>timestamp\<close>, \<open>signature\<close> and no
  \<open>symbol\<close> key.
\<close>

theorem no_symbol_parameter:
  assumes "symbol = None \<or> symbol = Some []"
  shows "get_all_orders pf self symbol limit w =
           make_request pf self ''/api/v3/allOrders'' (Some [(''limit'', PInt limit)]) w
       \<and> get_last_trade pf self symbol limit w =
           make_request pf self ''/api/v3/myTrades'' (Some [(''limit'', PInt limit)]) w
       \<and> map fst (req_params (last (sent (snd (get_all_orders pf self symbol limit w))))) =
           [''limit'', ''timestamp'', ''signature'']
       \<and> map fst (req_params (last (sent (snd (get_last_trade pf self symbol limit w))))) =
           [''limit'', ''timestamp'', ''signature'']
       \<and> map_of (req_params (last (sent (snd (get_all_orders pf self symbol limit w))))) ''symbol'' = None
       \<and> map_of (req_params (last (sent (snd (get_last_trade pf self symbol limit w))))) ''symbol'' = None"
  using assms
  by (auto simp add: get_all_orders_def get_last_trade_def optional_symbol_def sent_make_request
      sign_params_def Let_def)

theorem no_symbol_parameter_witness:
  "map fst (req_params (last (sent (snd (get_all_orders (fixture_platform (\<lambda>k req. Response teapot))
      client None 10 fresh))))) = [''limit'', ''timestamp'', ''signature'']
   \<and> map fst (req_params (last (sent (snd (get_last_trade (fixture_platform (\<lambda>k req. Response teapot))
      client (Some []) 1 fresh))))) = [''limit'', ''timestamp'', ''signature'']"
proof -
  have a: "(None :: string option) = None \<or> (None :: string option) = Some []"
    by simp
  have b: "Some [] = (None :: string option) \<or> Some [] = Some ([] :: string)"
    by simp
  from no_symbol_parameter [OF a, of "fixture_platform (\<lambda>k req. Response teapot)" client 10 fresh]
    no_symbol_parameter [OF b, of "fixture_platform (\<lambda>k req. Response teapot)" client 1 fresh]
  show ?thesis
    by blast
qed

section \<open>The fill scanner without account information\<close>

text \<open>
  C5. When \<open>get_account_info\<close> returns \<open>None\<close>, \<open>get_recent_filled_orders\<close> returns
  the empty list, without raising, and the account request is the only request it has
  issued: no order request follows.
\<close>

theorem no_account_info:
  assumes "fst (get_account_info pf self w) = Inr None"
  shows "get_recent_filled_orders pf self limit w = (Inr [], snd (get_account_info pf self w))
       \<and> sent (snd (get_recent_filled_orders pf self limit w)) =
           sent w @ [\<lparr>req_url = base_url self @ ''/api/v3/account'',
                req_params = snd (sign_params pf self (time_ms pf (length (sent w))) None),
                req_headers = [(''X-MBX-APIKEY'', api_key self)]\<rparr>]"
proof -
  obtain w1 where g: "get_account_info pf self w = (Inr None, w1)"
    using assms by (cases "get_account_info pf self w") auto
  have r: "get_recent_filled_orders pf self limit w = (Inr [], w1)"
    by (simp add: get_recent_filled_orders_def g)
  have "sent w1 = sent (snd (make_request pf self ''/api/v3/account'' None w))"
    using g by (simp add: get_account_info_def)
  then show ?thesis
    using g r by (simp add: sent_make_request)
qed

theorem no_account_info_witness:
  "get_recent_filled_orders (fixture_platform (\<lambda>k req. Response teapot)) client 3 fresh =
     (Inr [], snd (get_account_info (fixture_platform (\<lambda>k req. Response teapot)) client fresh))
   \<and> length (sent (snd (get_recent_filled_orders (fixture_platform (\<lambda>k req. Response teapot))
        client 3 fresh))) = 1"
proof -
  have "fst (get_account_info (fixture_platform (\<lambda>k req. Response teapot)) client fresh) = Inr None"
    by (simp add: get_account_info_def make_request_def Let_def case_prod_beta
        fixture_platform_def teapot_def)
  note w = no_account_info [OF this, of 3]
  have "length (sent (snd (get_recent_filled_orders
      (fixture_platform (\<lambda>k req. Response teapot)) client 3 fresh))) = 1"
    unfolding conjunct2 [OF w] by (simp add: fresh_def)
  with w show ?thesis
    by blast
qed

section \<open>The symbol universe\<close>

lemma has_balance_ok:
  "float_of pf (free b) \<noteq> None \<Longrightarrow> float_of pf (locked b) \<noteq> None \<Longrightarrow>
     has_balance pf b = Inr (funded pf b)"
  by (auto simp add: has_balance_def funded_def split: option.splits)

lemma collect_pairs_ok:
  "\<forall>b\<in>set bals. float_of pf (free b) \<noteq> None \<and> float_of pf (locked b) \<noteq> None \<Longrightarrow>
     collect_pairs pf bals acc =
       Inr (acc @ concat (map (\<lambda>b. common_pairs (asset b)) (filter (funded pf) bals)))"
  by (induction bals arbitrary: acc) (simp_all add: has_balance_ok)

lemma collect_pairs_nonempty:
  "collect_pairs pf bals acc = Inr xs \<Longrightarrow> \<forall>s\<in>set acc. s \<noteq> [] \<Longrightarrow> \<forall>s\<in>set xs. s \<noteq> []"
proof (induction bals arbitrary: acc)
  case Nil
  then show ?case by simp
next
  case (Cons b bs)
  show ?case
  proof (cases "has_balance pf b")
    case (Inl e)
    with Cons.prems show ?thesis by simp
  next
    case (Inr pos)
    show ?thesis
    proof (cases pos)
      case True
      have "\<forall>s\<in>set (acc @ common_pairs (asset b)). s \<noteq> []"
        using Cons.prems(2) by (auto simp add: common_pairs_def)
      moreover have "collect_pairs pf bs (acc @ common_pairs (asset b)) = Inr xs"
        using Cons.prems(1) Inr True by simp
      ultimately show ?thesis
        using Cons.IH by blast
    next
      case False
      then have "collect_pairs pf bs acc = Inr xs"
        using Cons.prems(1) Inr by simp
      then show ?thesis
        using Cons.IH Cons.prems(2) by blast
    qed
  qed
qed

lemma symbols_with_balance_facts:
  assumes "set_order_ok pf" and "symbols_with_balance pf bals = Inr symbols"
  shows "distinct symbols" and "set popular_symbols \<subseteq> set symbols" and "\<forall>s\<in>set symbols. s \<noteq> []"
proof -
  obtain pairs where p: "collect_pairs pf bals [] = Inr pairs"
    and s: "symbols = list_of_set pf (pairs @ popular_symbols)"
    using assms(2) by (auto simp add: symbols_with_balance_def split: sum.splits)
  have so: "distinct symbols" "set symbols = set (pairs @ popular_symbols)"
    using assms(1) s by (simp_all add: set_order_ok_def)
  show "distinct symbols" by (rule so(1))
  show "set popular_symbols \<subseteq> set symbols" using so(2) by simp
  have "\<forall>s\<in>set pairs. s \<noteq> []"
    using collect_pairs_nonempty [OF p] by simp
  then show "\<forall>s\<in>set symbols. s \<noteq> []"
    using so(2) by (auto simp add: popular_symbols_def)
qed

text \<open>
  C2. For every list of balances whose amounts are numbers, and every order in which
  \<open>list(set(...))\<close> enumerates a set: the candidate symbols are, without duplicates,
  exactly the five pairs asset+USDT, asset+BTC, asset+ETH, BTC+asset, ETH+asset of every
  balance with \<open>free > 0\<close> or \<open>locked > 0\<close>, together with the five popular
  symbols. In particular, with a positive free amount of BTC and of ETH they contain
  BTCUSDT, ETHUSDT, BTCETH and ETHBTC and the popular symbols.
\<close>

theorem symbol_universe:
  assumes "set_order_ok pf"
    and "\<forall>b\<in>set bals. float_of pf (free b) \<noteq> None \<and> float_of pf (locked b) \<noteq> None"
  shows "\<exists>symbols. symbols_with_balance pf bals = Inr symbols \<and> distinct symbols
       \<and> set symbols =
           (\<Union>b\<in>{b \<in> set bals. funded pf b}.
              {asset b @ ''USDT'', asset b @ ''BTC'', asset b @ ''ETH'',
               ''BTC'' @ asset b, ''ETH'' @ asset b})
           \<union> {''BTCUSDT'', ''ETHUSDT'', ''BNBUSDT'', ''ADAUSDT'', ''SOLUSDT''}
       \<and> ((\<exists>b\<in>set bals. asset b = ''BTC'' \<and> (\<exists>x. float_of pf (free b) = Some x \<and> x > 0))
            \<and> (\<exists>b\<in>set bals. asset b = ''ETH'' \<and> (\<exists>x. float_of pf (free b) = Some x \<and> x > 0))
          \<longrightarrow> {''BTCUSDT'', ''ETHUSDT'', ''BTCETH'', ''ETHBTC'',
                ''BNBUSDT'', ''ADAUSDT'', ''SOLUSDT''} \<subseteq> set symbols)"
proof -
  let ?pairs = "concat (map (\<lambda>b. common_pairs (asset b)) (filter (funded pf) bals))"
  let ?symbols = "list_of_set pf (?pairs @ popular_symbols)"
  have r: "symbols_with_balance pf bals = Inr ?symbols"
    by (simp add: symbols_with_balance_def collect_pairs_ok [OF assms(2)])
  have d: "distinct ?symbols"
    using assms(1) by (simp add: set_order_ok_def)
  have s1: "set ?symbols = set ?pairs \<union> set popular_symbols"
    using assms(1) by (simp add: set_order_ok_def)
  have s2: "set ?pairs = (\<Union>b\<in>{b \<in> set bals. funded pf b}. set (common_pairs (asset b)))"
    by auto
  have s3: "\<And>a. set (common_pairs a) = {a @ ''USDT'', a @ ''BTC'', a @ ''ETH'', ''BTC'' @ a, ''ETH'' @ a}"
    by (simp add: common_pairs_def)
  have s4: "set popular_symbols = {''BTCUSDT'', ''ETHUSDT'', ''BNBUSDT'', ''ADAUSDT'', ''SOLUSDT''}"
    by (simp add: popular_symbols_def)
  have e: "set ?symbols =
           (\<Union>b\<in>{b \<in> set bals. funded pf b}.
              {asset b @ ''USDT'', asset b @ ''BTC'', asset b @ ''ETH'',
               ''BTC'' @ asset b, ''ETH'' @ asset b})
           \<union> {''BTCUSDT'', ''ETHUSDT'', ''BNBUSDT'', ''ADAUSDT'', ''SOLUSDT''}"
    unfolding s1 s2 s3 s4 by (rule refl)
  have f: "(\<exists>b\<in>set bals. asset b = ''BTC'' \<and> (\<exists>x. float_of pf (free b) = Some x \<and> x > 0))
            \<and> (\<exists>b\<in>set bals. asset b = ''ETH'' \<and> (\<exists>x. float_of pf (free b) = Some x \<and> x > 0))
          \<longrightarrow> {''BTCUSDT'', ''ETHUSDT'', ''BTCETH'', ''ETHBTC'',
                ''BNBUSDT'', ''ADAUSDT'', ''SOLUSDT''} \<subseteq> set ?symbols"
  proof
    assume h: "(\<exists>b\<in>set bals. asset b = ''BTC'' \<and> (\<exists>x. float_of pf (free b) = Some x \<and> x > 0))
            \<and> (\<exists>b\<in>set bals. asset b = ''ETH'' \<and> (\<exists>x. float_of pf (free b) = Some x \<and> x > 0))"
    then obtain b1 where b1: "b1 \<in> set bals" "asset b1 = ''BTC''" "funded pf b1"
      by (auto simp add: funded_def)
    have m: "asset b1 @ ''ETH'' \<in> set (common_pairs (asset b1))"
      "''ETH'' @ asset b1 \<in> set (common_pairs (asset b1))"
      by (simp_all add: common_pairs_def)
    have "asset b1 @ ''ETH'' \<in> set ?pairs" "''ETH'' @ asset b1 \<in> set ?pairs"
      unfolding s2 using b1(1,3) m by blast+
    then have "''BTCETH'' \<in> set ?pairs" "''ETHBTC'' \<in> set ?pairs"
      unfolding b1(2) by simp_all
    then have "''BTCETH'' \<in> set ?symbols" "''ETHBTC'' \<in> set ?symbols"
      unfolding s1 by simp_all
    moreover have "''BTCUSDT'' \<in> set ?symbols" "''ETHUSDT'' \<in> set ?symbols"
      "''BNBUSDT'' \<in> set ?symbols" "''ADAUSDT'' \<in> set ?symbols" "''SOLUSDT'' \<in> set ?symbols"
      unfolding s1 s4 by simp_all
    ultimately show "{''BTCUSDT'', ''ETHUSDT'', ''BTCETH'', ''ETHBTC'',
                ''BNBUSDT'', ''ADAUSDT'', ''SOLUSDT''} \<subseteq> set ?symbols"
      by simp
  qed
  show ?thesis
    using r d e f by blast
qed

theorem symbol_universe_witness:
  "symbols_with_balance (fixture_platform (fixture_http btc_eth_balances)) btc_eth_balances =
     Inr [''BTCBTC'', ''ETHBTC'', ''BTCETH'', ''ETHETH'', ''BTCUSDT'', ''ETHUSDT'', ''BNBUSDT'',
          ''ADAUSDT'', ''SOLUSDT'']
   \<and> (\<exists>symbols. symbols_with_balance (fixture_platform (fixture_http btc_eth_balances))
          btc_eth_balances = Inr symbols \<and> distinct symbols
        \<and> {''BTCUSDT'', ''ETHUSDT'', ''BTCETH'', ''ETHBTC'', ''BNBUSDT'', ''ADAUSDT'', ''SOLUSDT''}
            \<subseteq> set symbols)"
proof -
  let ?pf = "fixture_platform (fixture_http btc_eth_balances)"
  have h1: "set_order_ok ?pf"
    by (simp add: set_order_ok_def fixture_platform_def)
  have h2: "\<forall>b\<in>set btc_eth_balances. float_of ?pf (free b) \<noteq> None \<and> float_of ?pf (locked b) \<noteq> None"
    by (simp add: btc_eth_balances_def fixture_platform_def fixture_float_def)
  have h3: "(\<exists>b\<in>set btc_eth_balances. asset b = ''BTC'' \<and> (\<exists>x. float_of ?pf (free b) = Some x \<and> x > 0))
            \<and> (\<exists>b\<in>set btc_eth_balances. asset b = ''ETH'' \<and> (\<exists>x. float_of ?pf (free b) = Some x \<and> x > 0))"
    by (auto simp add: btc_eth_balances_def fixture_platform_def fixture_float_def)
  have ev: "symbols_with_balance ?pf btc_eth_balances =
     Inr [''BTCBTC'', ''ETHBTC'', ''BTCETH'', ''ETHETH'', ''BTCUSDT'', ''ETHUSDT'', ''BNBUSDT'',
          ''ADAUSDT'', ''SOLUSDT'']"
    by (simp add: symbols_with_balance_def has_balance_def common_pairs_def popular_symbols_def
        btc_eth_balances_def fixture_platform_def fixture_float_def)
  from symbol_universe [OF h1 h2] h3 ev show ?thesis
    by blast
qed


section \<open>The scan over the candidate symbols\<close>

lemma sent_get_all_orders:
  "sent (snd (get_all_orders pf self symbol limit w)) =
     sent w @ [last (sent (snd (get_all_orders pf self symbol limit w)))]"
  by (simp add: get_all_orders_def Let_def sent_make_request)

lemma length_sent_get_all_orders:
  "length (sent (snd (get_all_orders pf self symbol limit w))) = Suc (length (sent w))"
  by (simp add: get_all_orders_def Let_def sent_make_request)

lemma scan_Cons:
  "scan_symbols pf self (s # rest) acc w =
     scan_symbols pf self rest (acc @ fst (scan_symbols pf self [s] [] w))
       (snd (scan_symbols pf self [s] [] w))"
  by (simp split: prod.splits sum.splits option.splits)

lemma scan_append:
  "scan_symbols pf self (xs @ ys) acc w =
     scan_symbols pf self ys (fst (scan_symbols pf self xs acc w))
       (snd (scan_symbols pf self xs acc w))"
proof (induction xs arbitrary: acc w)
  case Nil
  then show ?case by simp
next
  case (Cons x xs)
  show ?case
    by (simp only: append_Cons scan_Cons [of pf self x "xs @ ys"] scan_Cons [of pf self x xs] Cons.IH)
qed

lemma scan_extends: "\<exists>added. fst (scan_symbols pf self syms acc w) = acc @ added"
proof (induction syms arbitrary: acc w)
  case Nil
  then show ?case by simp
next
  case (Cons x xs)
  obtain added where
    "fst (scan_symbols pf self xs (acc @ fst (scan_symbols pf self [x] [] w))
       (snd (scan_symbols pf self [x] [] w))) = (acc @ fst (scan_symbols pf self [x] [] w)) @ added"
    using Cons.IH by blast
  then show ?case
    by (simp only: scan_Cons [of pf self x xs]) simp
qed

lemma snd_scan_single:
  "snd (scan_symbols pf self [s] acc w) = snd (get_all_orders pf self (Some s) 20 w)"
  by (simp split: prod.splits sum.splits option.splits)

lemma length_sent_scan:
  "length (sent (snd (scan_symbols pf self syms acc w))) = length (sent w) + length syms"
proof (induction syms arbitrary: acc w)
  case Nil
  then show ?case by simp
next
  case (Cons x xs)
  show ?case
    by (simp only: scan_Cons [of pf self x xs] Cons.IH snd_scan_single length_sent_get_all_orders)
      simp
qed

lemma fst_make_request:
  "fst (make_request pf self ep p w) =
     (case requests_get pf (length (sent w)) (last (sent (snd (make_request pf self ep p w)))) of
        Raises \<Rightarrow> Inl RequestException
      | Response r \<Rightarrow>
          if status_code r = 200
          then (case json r of None \<Rightarrow> Inl JSONDecodeError | Some b \<Rightarrow> Inr (Some b))
          else Inr None)"
  unfolding sent_make_request
  by (simp add: make_request_def Let_def case_prod_beta split: outcome.splits option.splits)

lemma orders_request_sent:
  "s \<noteq> [] \<Longrightarrow> orders_request self s (last (sent (snd (get_all_orders pf self (Some s) 20 w))))"
  by (simp add: orders_request_def get_all_orders_def optional_symbol_def Let_def
      sent_make_request sign_params_def AList.update_conv')

lemma scan_single:
  "fst (scan_symbols pf self [s] [] w) =
     filled_in (requests_get pf (length (sent w))
       (last (sent (snd (get_all_orders pf self (Some s) 20 w)))))"
proof -
  obtain res w' where g: "get_all_orders pf self (Some s) 20 w = (res, w')"
    by (cases "get_all_orders pf self (Some s) 20 w")
  have r: "res =
     (case requests_get pf (length (sent w)) (last (sent w')) of
        Raises \<Rightarrow> Inl RequestException
      | Response r \<Rightarrow>
          if status_code r = 200
          then (case json r of None \<Rightarrow> Inl JSONDecodeError | Some b \<Rightarrow> Inr (Some b))
          else Inr None)"
    using g fst_make_request [of pf self "''/api/v3/allOrders''"
        "Some (optional_symbol (Some s) [(''limit'', PInt 20)])" w]
    by (simp add: get_all_orders_def Let_def)
  show ?thesis
    unfolding g snd_conv
    by (cases "requests_get pf (length (sent w)) (last (sent w'))")
      (auto simp add: g r filled_in_def split: option.splits body.splits)
qed

lemma scan_answers:
  assumes "\<forall>s\<in>set syms. s \<noteq> [] \<and>
      (\<forall>k req. orders_request self s req \<longrightarrow> filled_in (requests_get pf k req) = ans s)"
  shows "fst (scan_symbols pf self syms acc w) = acc @ concat (map ans syms)"
  using assms
proof (induction syms arbitrary: acc w)
  case Nil
  then show ?case by simp
next
  case (Cons x xs)
  have x: "x \<noteq> []"
    and a: "\<And>k req. orders_request self x req \<Longrightarrow> filled_in (requests_get pf k req) = ans x"
    using Cons.prems by auto
  have one: "fst (scan_symbols pf self [x] [] w) = ans x"
    unfolding scan_single by (rule a) (rule orders_request_sent [OF x])
  have rest: "\<forall>s\<in>set xs. s \<noteq> [] \<and>
      (\<forall>k req. orders_request self s req \<longrightarrow> filled_in (requests_get pf k req) = ans s)"
    using Cons.prems by simp
  show ?case
    by (simp only: scan_Cons [of pf self x xs] one Cons.IH [OF rest]) simp
qed

text \<open>The transport of the fixtures, on the requests of the scan.\<close>

lemma fixture_orders:
  assumes "orders_request client s req"
  shows "requests_get (fixture_platform (fixture_http bals)) k req =
     (if s = ''BTCUSDT'' then Response (ok (OrderList btc_orders))
      else if s = ''ETHUSDT'' then Response (ok (OrderList eth_orders))
      else if s = ''BNBUSDT'' then Raises
      else Response \<lparr>status_code = 400, body_text = ''Invalid symbol.'', json = None\<rparr>)"
  using assms
  by (simp add: orders_request_def fixture_platform_def fixture_http_def client_def init_def)

lemma fixture_filled:
  assumes "orders_request client s req"
  shows "filled_in (requests_get (fixture_platform (fixture_http bals)) k req) =
     (if s = ''BTCUSDT''
      then [an_order ''BTCUSDT'' 1 ''FILLED'' 100, an_order ''BTCUSDT'' 3 ''FILLED'' 300]
      else if s = ''ETHUSDT'' then [an_order ''ETHUSDT'' 4 ''FILLED'' 200]
      else [])"
  unfolding fixture_orders [OF assms]
  by (simp add: filled_in_def ok_def btc_orders_def eth_orders_def an_order_def)

lemma fixture_account:
  "fst (get_account_info (fixture_platform (fixture_http bals)) client w) =
     Inr (Some (Account \<lparr>balances = bals\<rparr>))"
  unfolding get_account_info_def fst_make_request sent_make_request
  by (simp add: fixture_platform_def fixture_http_def client_def init_def ok_def)

text \<open>
  C6. Let the scan have reached the symbol \<open>s\<close> after the symbols \<open>xs\<close>, with the orders
  \<open>acc1\<close> accumulated, and let the turn of \<open>s\<close> raise: in \<open>get_all_orders\<close> (the
  transport raises, or the body is not JSON) or in the filter. Then the scan goes on with
  the symbols after \<open>s\<close> from exactly the orders accumulated before \<open>s\<close>: the symbol
  adds nothing and removes nothing, the result of the whole scan extends \<open>acc1\<close>, and a
  request has been issued for every symbol of the list, those after \<open>s\<close> included. The
  scan itself returns a list of orders in every case: it has no way to raise.
\<close>

theorem scan_skips_failed_symbol:
  assumes "scan_symbols pf self xs acc w = (acc1, w1)"
    and "get_all_orders pf self (Some s) 20 w1 = (res, w2)"
    and "res = Inl e \<or> (\<exists>b. res = Inr (Some b) \<and> filled_orders b = Inl e)"
  shows "scan_symbols pf self (xs @ s # ys) acc w = scan_symbols pf self ys acc1 w2
       \<and> (\<exists>added. acc1 = acc @ added)
       \<and> (\<exists>added. fst (scan_symbols pf self (xs @ s # ys) acc w) = acc1 @ added)
       \<and> length (sent (snd (scan_symbols pf self (xs @ s # ys) acc w))) =
           length (sent w) + length (xs @ s # ys)"
proof -
  have step: "scan_symbols pf self (s # ys) acc1 w1 = scan_symbols pf self ys acc1 w2"
    using assms(2,3) by (auto split: body.splits)
  have a: "scan_symbols pf self (xs @ s # ys) acc w = scan_symbols pf self ys acc1 w2"
    by (simp add: scan_append [of pf self xs "s # ys"] assms(1) step del: scan_symbols.simps)
  have b: "\<exists>added. acc1 = acc @ added"
    using scan_extends [of pf self xs acc w] assms(1) by simp
  have c: "\<exists>added. fst (scan_symbols pf self (xs @ s # ys) acc w) = acc1 @ added"
    unfolding a by (rule scan_extends)
  show ?thesis
    using a b c length_sent_scan [of pf self "xs @ s # ys" acc w] by blast
qed



theorem scan_skips_failed_symbol_witness:
  "fst (scan_symbols (fixture_platform (fixture_http no_balance)) client
          ([''BTCUSDT''] @ ''BNBUSDT'' # [''ETHUSDT'']) [] fresh) =
     [an_order ''BTCUSDT'' 1 ''FILLED'' 100, an_order ''BTCUSDT'' 3 ''FILLED'' 300,
      an_order ''ETHUSDT'' 4 ''FILLED'' 200]
   \<and> fst (get_all_orders (fixture_platform (fixture_http no_balance)) client (Some ''BNBUSDT'') 20
          (snd (scan_symbols (fixture_platform (fixture_http no_balance)) client [''BTCUSDT''] [] fresh)))
       = Inl RequestException
   \<and> length (sent (snd (scan_symbols (fixture_platform (fixture_http no_balance)) client
          ([''BTCUSDT''] @ ''BNBUSDT'' # [''ETHUSDT'']) [] fresh))) = 3"
proof -
  let ?pf = "fixture_platform (fixture_http no_balance)"
  let ?w1 = "snd (scan_symbols ?pf client [''BTCUSDT''] [] fresh)"
  have raised: "fst (get_all_orders ?pf client (Some ''BNBUSDT'') 20 ?w1) = Inl RequestException"
  proof -
    have "orders_request client ''BNBUSDT''
        (last (sent (snd (get_all_orders ?pf client (Some ''BNBUSDT'') 20 ?w1))))"
      by (rule orders_request_sent) simp
    then have "requests_get ?pf (length (sent ?w1))
        (last (sent (snd (get_all_orders ?pf client (Some ''BNBUSDT'') 20 ?w1)))) = Raises"
      by (simp add: fixture_orders)
    then show ?thesis
      using fst_make_request [of ?pf client "''/api/v3/allOrders''"
          "Some (optional_symbol (Some ''BNBUSDT'') [(''limit'', PInt 20)])" ?w1]
      by (simp add: get_all_orders_def Let_def)
  qed
  have h3: "fst (get_all_orders ?pf client (Some ''BNBUSDT'') 20 ?w1) = Inl RequestException
      \<or> (\<exists>b. fst (get_all_orders ?pf client (Some ''BNBUSDT'') 20 ?w1) = Inr (Some b)
            \<and> filled_orders b = Inl RequestException)"
    using raised by simp
  note t = scan_skips_failed_symbol [OF prod.collapse [symmetric] prod.collapse [symmetric] h3,
      of "[''ETHUSDT'']"]
  have all: "\<forall>s\<in>set [''BTCUSDT'', ''BNBUSDT'', ''ETHUSDT'']. s \<noteq> [] \<and>
      (\<forall>k req. orders_request client s req \<longrightarrow> filled_in (requests_get ?pf k req) =
         (if s = ''BTCUSDT''
          then [an_order ''BTCUSDT'' 1 ''FILLED'' 100, an_order ''BTCUSDT'' 3 ''FILLED'' 300]
          else if s = ''ETHUSDT'' then [an_order ''ETHUSDT'' 4 ''FILLED'' 200]
          else []))"
    by (simp add: fixture_filled)
  have result: "fst (scan_symbols ?pf client ([''BTCUSDT''] @ ''BNBUSDT'' # [''ETHUSDT'']) [] fresh) =
     [an_order ''BTCUSDT'' 1 ''FILLED'' 100, an_order ''BTCUSDT'' 3 ''FILLED'' 300,
      an_order ''ETHUSDT'' 4 ''FILLED'' 200]"
    using scan_answers [OF all, of "[]" fresh] by simp
  have "length (sent (snd (scan_symbols ?pf client ([''BTCUSDT''] @ ''BNBUSDT'' # [''ETHUSDT'']) [] fresh))) = 3"
    unfolding conjunct2 [OF conjunct2 [OF conjunct2 [OF t]]] by (simp add: fresh_def)
  with result raised show ?thesis
    by blast
qed


section \<open>The fill scanner on the fixture of the specification\<close>

lemma concat_none: "\<forall>x\<in>set xs. f x = [] \<Longrightarrow> concat (map f xs) = []"
  by (induction xs) auto

lemma concat_one:
  "a \<in> set xs \<Longrightarrow> distinct xs \<Longrightarrow> \<forall>x\<in>set xs. x \<noteq> a \<longrightarrow> f x = [] \<Longrightarrow> concat (map f xs) = f a"
proof (induction xs)
  case Nil
  then show ?case by simp
next
  case (Cons y ys)
  show ?case
  proof (cases "y = a")
    case True
    then have "\<forall>x\<in>set ys. f x = []"
      using Cons.prems by auto
    then show ?thesis
      using True by (simp add: concat_none)
  next
    case False
    then show ?thesis
      using Cons by auto
  qed
qed

lemma concat_two:
  assumes "distinct xs" "a \<in> set xs" "b \<in> set xs" "a \<noteq> b"
    and "\<forall>x\<in>set xs. x \<noteq> a \<longrightarrow> x \<noteq> b \<longrightarrow> f x = []"
  shows "concat (map f xs) = f a @ f b \<or> concat (map f xs) = f b @ f a"
  using assms
proof (induction xs)
  case Nil
  then show ?case by simp
next
  case (Cons y ys)
  consider "y = a" | "y = b" | "y \<noteq> a" "y \<noteq> b"
    by blast
  then show ?case
  proof cases
    case 1
    then have "b \<in> set ys" "distinct ys" "\<forall>x\<in>set ys. x \<noteq> b \<longrightarrow> f x = []"
      using Cons.prems by auto
    then have "concat (map f ys) = f b"
      by (rule concat_one)
    then show ?thesis
      using 1 by simp
  next
    case 2
    then have "a \<in> set ys" "distinct ys" "\<forall>x\<in>set ys. x \<noteq> a \<longrightarrow> f x = []"
      using Cons.prems by auto
    then have "concat (map f ys) = f a"
      by (rule concat_one)
    then show ?thesis
      using 2 by simp
  next
    case 3
    then have "f y = []"
      using Cons.prems by simp
    moreover have "concat (map f ys) = f a @ f b \<or> concat (map f ys) = f b @ f a"
      using Cons.IH Cons.prems 3 by auto
    ultimately show ?thesis
      by simp
  qed
qed


lemma sort_fixture:
  assumes "time a = 100" "time b = 300" "time c = 200"
  shows "sort_by_time_desc ([a, b] @ [c]) = [b, c, a]"
    and "sort_by_time_desc ([c] @ [a, b]) = [b, c, a]"
  using assms by (simp_all add: sort_by_time_desc_def)

text \<open>
  C1, as amended. Let the account request return an account whose candidate symbols are
  at most 15 (as with no balance, or with at most two assets held), let the order requests for
  BTCUSDT yield the FILLED orders \<open>a\<close>, \<open>b\<close> of times 100 and 300, those for ETHUSDT the
  FILLED order \<open>c\<close> of time 200, and those for every other symbol no FILLED order (or
  fail). Then, in whatever order the set of candidates is enumerated,
  \<open>get_recent_filled_orders\<close> with limit 3 returns the three orders latest first, of
  times 300, 200, 100, and with limit 2 the first two of them, of times 300, 200.
\<close>

theorem recent_filled_orders_fixture:
  assumes order: "set_order_ok pf"
    and acct: "fst (get_account_info pf self w) = Inr (Some (Account acct))"
    and syms: "symbols_with_balance pf (balances acct) = Inr symbols" "length symbols \<le> 15"
    and btc: "\<forall>k req. orders_request self ''BTCUSDT'' req \<longrightarrow>
                filled_in (requests_get pf k req) = [a, b]"
    and eth: "\<forall>k req. orders_request self ''ETHUSDT'' req \<longrightarrow>
                filled_in (requests_get pf k req) = [c]"
    and rest: "\<forall>k req s. orders_request self s req \<longrightarrow> s \<noteq> ''BTCUSDT'' \<longrightarrow> s \<noteq> ''ETHUSDT'' \<longrightarrow>
                filled_in (requests_get pf k req) = []"
    and times: "time a = 100" "time b = 300" "time c = 200"
  shows "fst (get_recent_filled_orders pf self 3 w) = Inr [b, c, a]
       \<and> fst (get_recent_filled_orders pf self 2 w) = Inr [b, c]"
proof -
  define ans where "ans = (\<lambda>s. if s = ''BTCUSDT'' then [a, b] else if s = ''ETHUSDT'' then [c] else [])"
  obtain w1 where g: "get_account_info pf self w = (Inr (Some (Account acct)), w1)"
    using acct by (cases "get_account_info pf self w") auto
  note facts = symbols_with_balance_facts [OF order syms(1)]
  have all: "\<forall>s\<in>set symbols. s \<noteq> [] \<and>
      (\<forall>k req. orders_request self s req \<longrightarrow> filled_in (requests_get pf k req) = ans s)"
    using facts(3) btc eth rest by (simp add: ans_def)
  have scan: "fst (scan_symbols pf self symbols [] w1) = concat (map ans symbols)"
    using scan_answers [OF all, of "[]" w1] by simp
  have mem: "''BTCUSDT'' \<in> set symbols" "''ETHUSDT'' \<in> set symbols"
    using facts(2) by (simp_all add: popular_symbols_def)
  have "concat (map ans symbols) = ans ''BTCUSDT'' @ ans ''ETHUSDT''
      \<or> concat (map ans symbols) = ans ''ETHUSDT'' @ ans ''BTCUSDT''"
    by (rule concat_two [OF facts(1) mem]) (simp_all add: ans_def)
  then have two: "concat (map ans symbols) = [a, b] @ [c] \<or> concat (map ans symbols) = [c] @ [a, b]"
    by (simp add: ans_def)
  have sorted: "sort_by_time_desc (concat (map ans symbols)) = [b, c, a]"
    using two sort_fixture [OF times] by metis
  have nonempty: "concat (map ans symbols) \<noteq> []"
  proof
    assume "concat (map ans symbols) = []"
    with two show False by simp
  qed
  have res: "\<And>limit. fst (get_recent_filled_orders pf self limit w) = Inr (slice_to [b, c, a] limit)"
    using scan nonempty sorted syms(2)
    by (simp add: get_recent_filled_orders_def g syms(1) case_prod_beta)
  show ?thesis
    by (simp add: res slice_to_def)
qed


theorem recent_filled_orders_fixture_witness:
  "fst (get_recent_filled_orders (fixture_platform (fixture_http no_balance)) client 3 fresh) =
     Inr [an_order ''BTCUSDT'' 3 ''FILLED'' 300, an_order ''ETHUSDT'' 4 ''FILLED'' 200,
          an_order ''BTCUSDT'' 1 ''FILLED'' 100]
   \<and> fst (get_recent_filled_orders (fixture_platform (fixture_http no_balance)) client 2 fresh) =
     Inr [an_order ''BTCUSDT'' 3 ''FILLED'' 300, an_order ''ETHUSDT'' 4 ''FILLED'' 200]"
proof -
  let ?pf = "fixture_platform (fixture_http no_balance)"
  have order: "set_order_ok ?pf"
    by (simp add: set_order_ok_def fixture_platform_def)
  have syms: "symbols_with_balance ?pf (balances \<lparr>balances = no_balance\<rparr>) = Inr popular_symbols"
    by (simp add: symbols_with_balance_def has_balance_def popular_symbols_def
        no_balance_def fixture_platform_def fixture_float_def)
  have len: "length popular_symbols \<le> 15"
    by (simp add: popular_symbols_def)
  have btc: "\<forall>k req. orders_request client ''BTCUSDT'' req \<longrightarrow>
      filled_in (requests_get ?pf k req) =
        [an_order ''BTCUSDT'' 1 ''FILLED'' 100, an_order ''BTCUSDT'' 3 ''FILLED'' 300]"
    by (simp add: fixture_filled)
  have eth: "\<forall>k req. orders_request client ''ETHUSDT'' req \<longrightarrow>
      filled_in (requests_get ?pf k req) = [an_order ''ETHUSDT'' 4 ''FILLED'' 200]"
    by (simp add: fixture_filled)
  have rest: "\<forall>k req s. orders_request client s req \<longrightarrow> s \<noteq> ''BTCUSDT'' \<longrightarrow> s \<noteq> ''ETHUSDT'' \<longrightarrow>
      filled_in (requests_get ?pf k req) = []"
    by (simp add: fixture_filled)
  show ?thesis
    by (rule recent_filled_orders_fixture [OF order fixture_account syms len btc eth rest])
      (simp_all add: an_order_def)
qed


text \<open>
  Without the bound on the candidates the statement fails: the scan reads the first 15
  candidates only. With four assets held there are 19 candidates; in the enumeration of
  the fixtures BTCUSDT is the fifteenth and ETHUSDT the sixteenth, so the FILLED order of
  ETHUSDT, which the exchange of the fixtures does hold, is never requested, and limit 3
  returns two orders, of times 300 and 100.
\<close>

lemma four_funded_symbols:
  "symbols_with_balance (fixture_platform (fixture_http four_funded)) four_funded =
     Inr [''BTCBTC'', ''ETHBTC'', ''BTCETH'', ''ETHETH'', ''XRPUSDT'', ''XRPBTC'', ''XRPETH'',
          ''BTCXRP'', ''ETHXRP'', ''LTCUSDT'', ''LTCBTC'', ''LTCETH'', ''BTCLTC'', ''ETHLTC'',
          ''BTCUSDT'', ''ETHUSDT'', ''BNBUSDT'', ''ADAUSDT'', ''SOLUSDT'']"
  by (simp add: symbols_with_balance_def has_balance_def common_pairs_def popular_symbols_def
      four_funded_def fixture_platform_def fixture_float_def)

theorem candidates_cut_counterexample:
  "fst (scan_symbols (fixture_platform (fixture_http four_funded)) client [''BTCUSDT''] [] fresh) =
     [an_order ''BTCUSDT'' 1 ''FILLED'' 100, an_order ''BTCUSDT'' 3 ''FILLED'' 300]
   \<and> fst (scan_symbols (fixture_platform (fixture_http four_funded)) client [''ETHUSDT''] [] fresh) =
     [an_order ''ETHUSDT'' 4 ''FILLED'' 200]
   \<and> symbols_with_balance (fixture_platform (fixture_http four_funded)) four_funded =
     Inr [''BTCBTC'', ''ETHBTC'', ''BTCETH'', ''ETHETH'', ''XRPUSDT'', ''XRPBTC'', ''XRPETH'',
          ''BTCXRP'', ''ETHXRP'', ''LTCUSDT'', ''LTCBTC'', ''LTCETH'', ''BTCLTC'', ''ETHLTC'',
          ''BTCUSDT'', ''ETHUSDT'', ''BNBUSDT'', ''ADAUSDT'', ''SOLUSDT'']
   \<and> fst (get_recent_filled_orders (fixture_platform (fixture_http four_funded)) client 3 fresh) =
     Inr [an_order ''BTCUSDT'' 3 ''FILLED'' 300, an_order ''BTCUSDT'' 1 ''FILLED'' 100]"
proof -
  let ?pf = "fixture_platform (fixture_http four_funded)"
  let ?cut = "[''BTCBTC'', ''ETHBTC'', ''BTCETH'', ''ETHETH'', ''XRPUSDT'', ''XRPBTC'', ''XRPETH'',
          ''BTCXRP'', ''ETHXRP'', ''LTCUSDT'', ''LTCBTC'', ''LTCETH'', ''BTCLTC'', ''ETHLTC'',
          ''BTCUSDT'']"
  let ?ans = "\<lambda>s. if s = ''BTCUSDT''
          then [an_order ''BTCUSDT'' 1 ''FILLED'' 100, an_order ''BTCUSDT'' 3 ''FILLED'' 300]
          else if s = ''ETHUSDT'' then [an_order ''ETHUSDT'' 4 ''FILLED'' 200]
          else []"
  obtain w1 where g: "get_account_info ?pf client fresh =
      (Inr (Some (Account \<lparr>balances = four_funded\<rparr>)), w1)"
    using fixture_account [of four_funded fresh] by (cases "get_account_info ?pf client fresh") auto
  have all: "\<forall>s\<in>set ?cut. s \<noteq> [] \<and>
      (\<forall>k req. orders_request client s req \<longrightarrow> filled_in (requests_get ?pf k req) = ?ans s)"
    by (simp add: fixture_filled)
  have btc: "\<forall>s\<in>set [''BTCUSDT'']. s \<noteq> [] \<and>
      (\<forall>k req. orders_request client s req \<longrightarrow> filled_in (requests_get ?pf k req) = ?ans s)"
    by (simp add: fixture_filled)
  have eth: "\<forall>s\<in>set [''ETHUSDT'']. s \<noteq> [] \<and>
      (\<forall>k req. orders_request client s req \<longrightarrow> filled_in (requests_get ?pf k req) = ?ans s)"
    by (simp add: fixture_filled)
  have one: "fst (scan_symbols ?pf client [''BTCUSDT''] [] fresh) =
      [an_order ''BTCUSDT'' 1 ''FILLED'' 100, an_order ''BTCUSDT'' 3 ''FILLED'' 300]"
    using scan_answers [OF btc, of "[]" fresh] by simp
  have two: "fst (scan_symbols ?pf client [''ETHUSDT''] [] fresh) =
      [an_order ''ETHUSDT'' 4 ''FILLED'' 200]"
    using scan_answers [OF eth, of "[]" fresh] by simp
  have scan: "fst (scan_symbols ?pf client ?cut [] w1) =
      [an_order ''BTCUSDT'' 1 ''FILLED'' 100, an_order ''BTCUSDT'' 3 ''FILLED'' 300]"
    using scan_answers [OF all, of "[]" w1] by simp
  have sorted: "sort_by_time_desc
      [an_order ''BTCUSDT'' 1 ''FILLED'' 100, an_order ''BTCUSDT'' 3 ''FILLED'' 300] =
      [an_order ''BTCUSDT'' 3 ''FILLED'' 300, an_order ''BTCUSDT'' 1 ''FILLED'' 100]"
    by (simp add: sort_by_time_desc_def an_order_def)
  have "fst (get_recent_filled_orders ?pf client 3 fresh) =
     Inr [an_order ''BTCUSDT'' 3 ''FILLED'' 300, an_order ''BTCUSDT'' 1 ''FILLED'' 100]"
    using scan sorted
    by (simp add: get_recent_filled_orders_def g four_funded_symbols case_prod_beta slice_to_def)
  with one two four_funded_symbols show ?thesis
    by blast
qed

section \<open>The configuration file\<close>

lemma strip_where_commute:
  "strip_where p s = dropWhile p (rev (dropWhile p (rev s)))"
proof (cases "\<forall>x\<in>set s. p x")
  case True
  have a: "dropWhile p s = []"
    using True by simp
  have b: "dropWhile p (rev s) = []"
    using True by simp
  show ?thesis
    unfolding strip_where_def a b by simp
next
  case False
  then obtain a x b where s: "s = a @ x # b" and a: "\<forall>y\<in>set a. p y" and x: "\<not> p x"
    using split_list_first_prop [of s "\<lambda>x. \<not> p x"] by auto
  have l: "dropWhile p s = x # b"
    using a x by (simp add: s dropWhile_append2)
  have r: "dropWhile p (rev s) = dropWhile p (rev b) @ x # rev a"
    using x by (simp add: s dropWhile_append3)
  show ?thesis
    using a x by (simp add: strip_where_def l r dropWhile_append3 dropWhile_append2)
qed

lemma strip_where_around:
  "\<not> p c \<Longrightarrow> strip_where p (k @ c # v) = dropWhile p k @ c # rev (dropWhile p (rev v))"
  by (simp add: strip_where_def dropWhile_append3)

lemma strip_where_dropWhile: "strip_where p (dropWhile p k) = strip_where p k"
  by (simp add: strip_where_def)

lemma strip_where_rtrim: "strip_where p (rev (dropWhile p (rev v))) = strip_where p v"
  by (simp add: strip_where_commute)

lemma set_strip_where: "set (strip_where p s) \<subseteq> set s"
proof -
  have "set (strip_where p s) \<subseteq> set (dropWhile p s)"
    unfolding strip_where_def set_rev using set_dropWhileD by fastforce
  also have "\<dots> \<subseteq> set s"
    using set_dropWhileD by fastforce
  finally show ?thesis .
qed

lemma strip_where_snoc: "p c \<Longrightarrow> strip_where p (s @ [c]) = strip_where p s"
  by (simp add: strip_where_commute)

lemma strip_where_core:
  assumes "\<forall>c\<in>set a. p c" "\<forall>c\<in>set b. p c" "m \<noteq> []" "\<not> p (hd m)" "\<not> p (last m)"
  shows "strip_where p (a @ m @ b) = m"
proof -
  obtain x m' where m: "m = x # m'"
    using assms(3) by (cases m) auto
  have l: "dropWhile p (a @ m @ b) = m @ b"
    using assms(1,4) by (simp add: m dropWhile_append2)
  obtain m'' y where m2: "m = m'' @ [y]"
    using assms(3) by (cases m rule: rev_cases) auto
  have b: "dropWhile p (rev b) = []"
    using assms(2) by simp
  have "dropWhile p (rev (m @ b)) = rev m"
    using assms(5) by (simp add: m2 dropWhile_append3 b)
  then show ?thesis
    by (simp add: strip_where_def l)
qed

lemma strip_where_all:
  assumes "\<forall>c\<in>set s. p c"
  shows "strip_where p s = []"
proof -
  have a: "dropWhile p s = []"
    using assms by simp
  show ?thesis
    unfolding strip_where_def a by simp
qed

lemma strip_where_id:
  assumes "s = [] \<or> (\<not> p (hd s) \<and> \<not> p (last s))"
  shows "strip_where p s = s"
proof (cases "s = []")
  case True
  then show ?thesis
    by (simp add: strip_where_def)
next
  case False
  then show ?thesis
    using assms strip_where_core [of "[]" p "[]" s] by simp
qed


lemma not_space_equals: "\<not> is_space CHR ''=''"
  by (simp add: is_space_def)

lemma is_space_newline: "is_space (CHR 0x0A)"
  by (simp add: is_space_def)

lemma load_env_line_skip:
  assumes "strip l = [] \<or> take 1 (strip l) = ''#'' \<or> CHR ''='' \<notin> set l"
  shows "load_env_line env l = env"
proof -
  have "CHR ''='' \<notin> set l \<Longrightarrow> CHR ''='' \<notin> set (strip l)"
    using set_strip_where [of is_space l] by (auto simp add: strip_def)
  then show ?thesis
    using assms by (auto simp add: load_env_line_def Let_def)
qed

lemma load_env_line_assign:
  assumes "CHR ''='' \<notin> set k" and "take 1 (strip (k @ ''='' @ v)) \<noteq> ''#''"
  shows "load_env_line env (k @ ''='' @ v) =
     env(strip k \<mapsto> strip_chars [CHR 0x27] (strip_chars [CHR 0x22] (strip v)))"
proof -
  define K where "K = dropWhile is_space k"
  define V where "V = rev (dropWhile is_space (rev v))"
  have s: "strip (k @ ''='' @ v) = K @ CHR ''='' # V"
    by (simp add: strip_def strip_where_around not_space_equals K_def V_def)
  have kk: "\<forall>c\<in>set K. c \<noteq> CHR ''=''"
    using assms(1) set_dropWhileD [of _ is_space k] by (auto simp add: K_def)
  have t: "takeWhile (\<lambda>c. c \<noteq> CHR ''='') (K @ CHR ''='' # V) = K"
    using kk by (simp add: takeWhile_append2)
  have d: "dropWhile (\<lambda>c. c \<noteq> CHR ''='') (K @ CHR ''='' # V) = CHR ''='' # V"
    using kk by (simp add: dropWhile_append2)
  have sp: "split_once CHR ''='' (K @ CHR ''='' # V) = (K, V)"
    by (simp add: split_once_def t d)
  have k': "strip K = strip k"
    by (simp add: strip_def K_def strip_where_dropWhile)
  have v': "strip V = strip v"
    by (simp add: strip_def V_def strip_where_rtrim)
  show ?thesis
    using assms(2) unfolding load_env_line_def Let_def s sp
    by (simp add: k' v')
qed

lemma load_env_line_newline: "load_env_line env (l @ [CHR 0x0A]) = load_env_line env l"
  by (simp add: load_env_line_def strip_def strip_where_snoc is_space_newline)

lemma file_lines_line:
  assumes "one_line l"
  shows "file_lines cur (l @ CHR 0x0A # rest) = (cur @ l @ [CHR 0x0A]) # file_lines [] rest"
  using assms
proof (induction l arbitrary: cur)
  case Nil
  then show ?case
    by (cases rest) simp_all
next
  case (Cons c l)
  obtain d ds where e: "l @ CHR 0x0A # rest = d # ds"
    by (cases l) auto
  have c: "c \<noteq> CHR 0x0A" "c \<noteq> CHR 0x0D" and l: "one_line l"
    using Cons.prems by (auto simp add: one_line_def)
  have "file_lines cur (c # d # ds) = file_lines (cur @ [c]) (d # ds)"
    using c by simp
  then show ?case
    using Cons.IH [OF l, of "cur @ [c]"] by (simp add: e)
qed

lemma file_lines_text:
  "\<forall>l\<in>set ls. one_line l \<Longrightarrow> file_lines [] (text_of_lines ls) = map (\<lambda>l. l @ [CHR 0x0A]) ls"
proof (induction ls)
  case Nil
  then show ?case
    by (simp add: text_of_lines_def)
next
  case (Cons l ls)
  have "text_of_lines (l # ls) = l @ CHR 0x0A # text_of_lines ls"
    by (simp add: text_of_lines_def)
  then show ?case
    using Cons file_lines_line [of l "[]" "text_of_lines ls"] by simp
qed

lemma foldl_load_env_newlines:
  "foldl load_env_line env (map (\<lambda>l. l @ [CHR 0x0A]) ls) = foldl load_env_line env ls"
  by (induction ls arbitrary: env) (simp_all add: load_env_line_newline)

lemma load_env_file_lines:
  "\<forall>l\<in>set ls. one_line l \<Longrightarrow>
     load_env_file (Content (text_of_lines ls)) = Inr (foldl load_env_line Map.empty ls)"
  by (simp add: load_env_file_def file_lines_text foldl_load_env_newlines)

lemma unquote:
  assumes q: "q = CHR 0x22 \<or> q = CHR 0x27"
    and a: "\<forall>c\<in>set a. is_space c" and b: "\<forall>c\<in>set b. is_space c"
    and t: "t = [] \<or> (hd t \<noteq> CHR 0x22 \<and> hd t \<noteq> CHR 0x27 \<and> last t \<noteq> CHR 0x22 \<and> last t \<noteq> CHR 0x27)"
  shows "strip_chars [CHR 0x27] (strip_chars [CHR 0x22] (strip (a @ [q] @ t @ [q] @ b))) = t"
proof -
  have nq: "\<not> is_space q"
    using q by (auto simp add: is_space_def)
  have s: "strip (a @ [q] @ t @ [q] @ b) = [q] @ t @ [q]"
    unfolding strip_def
    using strip_where_core [of a is_space b "[q] @ t @ [q]"] a b nq by simp
  have inner: "\<And>c. c = CHR 0x22 \<or> c = CHR 0x27 \<Longrightarrow>
      strip_where (\<lambda>x. x \<in> set [c]) ([c] @ t @ [c]) = t"
  proof -
    fix c :: char
    assume "c = CHR 0x22 \<or> c = CHR 0x27"
    show "strip_where (\<lambda>x. x \<in> set [c]) ([c] @ t @ [c]) = t"
    proof (cases "t = []")
      case True
      then show ?thesis
        by (simp add: strip_where_all)
    next
      case False
      then have "\<not> hd t \<in> set [c]" "\<not> last t \<in> set [c]"
        using t \<open>c = CHR 0x22 \<or> c = CHR 0x27\<close> by auto
      then show ?thesis
        using strip_where_core [of "[c]" "\<lambda>x. x \<in> set [c]" "[c]" t] False by simp
    qed
  qed
  have keep: "\<And>c. c = CHR 0x22 \<or> c = CHR 0x27 \<Longrightarrow> strip_where (\<lambda>x. x \<in> set [c]) t = t"
    using t by (intro strip_where_id) auto
  show ?thesis
  proof (cases "q = CHR 0x22")
    case True
    then show ?thesis
      unfolding s strip_chars_def using inner [of "CHR 0x22"] keep [of "CHR 0x27"] by simp
  next
    case False
    then have q': "q = CHR 0x27"
      using q by simp
    have "strip_where (\<lambda>x. x \<in> set [CHR 0x22]) ([q] @ t @ [q]) = [q] @ t @ [q]"
      by (rule strip_where_id) (simp add: q')
    then show ?thesis
      unfolding s strip_chars_def using inner [of "CHR 0x27"] by (simp add: q')
  qed
qed


text \<open>
  C10. \<open>load_env_file\<close> returns the empty mapping when the file is missing. For a file
  given by its lines: a line that is blank, or starts with \<open>#\<close> once stripped, or holds
  no \<open>=\<close>, changes nothing (the file reads as the file without that line); a line
  \<open>k=v\<close>, where \<open>k\<close> holds no \<open>=\<close>, is split at this first \<open>=\<close> (whatever
  further \<open>=\<close> there are in \<open>v\<close>) and sets the stripped key to the stripped value, from
  which then the double quotes and then the single quotes at both ends are removed; so a
  value written between a pair of double or of single quotes, with whitespace around,
  is stored without the quotes and the whitespace.
\<close>

theorem load_env_file_reads_lines:
  assumes "\<forall>x\<in>set (before @ l # after). one_line x"
  shows "load_env_file Missing = Inr Map.empty
       \<and> (strip l = [] \<or> take 1 (strip l) = ''#'' \<or> CHR ''='' \<notin> set l \<longrightarrow>
            load_env_file (Content (text_of_lines (before @ l # after))) =
            load_env_file (Content (text_of_lines (before @ after))))
       \<and> (\<forall>k v. l = k @ ''='' @ v \<and> CHR ''='' \<notin> set k \<and> take 1 (strip l) \<noteq> ''#'' \<longrightarrow>
            (\<exists>env. load_env_file (Content (text_of_lines before)) = Inr env
               \<and> load_env_file (Content (text_of_lines (before @ [l]))) =
                   Inr (env(strip k \<mapsto>
                     strip_chars [CHR 0x27] (strip_chars [CHR 0x22] (strip v))))))
       \<and> (\<forall>k q a t b. l = k @ ''='' @ a @ [q] @ t @ [q] @ b \<and> CHR ''='' \<notin> set k
              \<and> take 1 (strip l) \<noteq> ''#'' \<and> (q = CHR 0x22 \<or> q = CHR 0x27)
              \<and> (\<forall>c\<in>set a. is_space c) \<and> (\<forall>c\<in>set b. is_space c)
              \<and> (t = [] \<or> (hd t \<noteq> CHR 0x22 \<and> hd t \<noteq> CHR 0x27
                    \<and> last t \<noteq> CHR 0x22 \<and> last t \<noteq> CHR 0x27)) \<longrightarrow>
            (\<exists>env. load_env_file (Content (text_of_lines before)) = Inr env
               \<and> load_env_file (Content (text_of_lines (before @ [l]))) = Inr (env(strip k \<mapsto> t))))"
proof -
  have lines: "\<forall>x\<in>set (before @ l # after). one_line x" "\<forall>x\<in>set (before @ after). one_line x"
    "\<forall>x\<in>set before. one_line x" "\<forall>x\<in>set (before @ [l]). one_line x"
    using assms by auto
  have missing: "load_env_file Missing = Inr Map.empty"
    by (simp add: load_env_file_def)
  have skip: "strip l = [] \<or> take 1 (strip l) = ''#'' \<or> CHR ''='' \<notin> set l \<longrightarrow>
            load_env_file (Content (text_of_lines (before @ l # after))) =
            load_env_file (Content (text_of_lines (before @ after)))"
    by (simp add: load_env_file_lines [OF lines(1)] load_env_file_lines [OF lines(2)]
        load_env_line_skip)
  have assign: "load_env_file (Content (text_of_lines (before @ [l]))) =
        Inr ((foldl load_env_line Map.empty before)(strip k \<mapsto>
              strip_chars [CHR 0x27] (strip_chars [CHR 0x22] (strip v))))"
    if l: "l = k @ ''='' @ v" and k: "CHR ''='' \<notin> set k" and c: "take 1 (strip l) \<noteq> ''#''"
    for k v
  proof -
    have "load_env_line (foldl load_env_line Map.empty before) l =
        (foldl load_env_line Map.empty before)(strip k \<mapsto>
              strip_chars [CHR 0x27] (strip_chars [CHR 0x22] (strip v)))"
      using load_env_line_assign [OF k, of v "foldl load_env_line Map.empty before"] c
      unfolding l by simp
    then show ?thesis
      by (simp add: load_env_file_lines [OF lines(4)])
  qed
  have quoted: "load_env_file (Content (text_of_lines (before @ [l]))) =
        Inr ((foldl load_env_line Map.empty before)(strip k \<mapsto> t))"
    if l: "l = k @ ''='' @ a @ [q] @ t @ [q] @ b" and k: "CHR ''='' \<notin> set k"
      and c: "take 1 (strip l) \<noteq> ''#''" and q: "q = CHR 0x22 \<or> q = CHR 0x27"
      and a: "\<forall>c\<in>set a. is_space c" and b: "\<forall>c\<in>set b. is_space c"
      and t: "t = [] \<or> (hd t \<noteq> CHR 0x22 \<and> hd t \<noteq> CHR 0x27 \<and> last t \<noteq> CHR 0x22 \<and> last t \<noteq> CHR 0x27)"
    for k q a t b
    unfolding assign [OF l k c] unquote [OF q a b t] by (rule refl)
  have before: "load_env_file (Content (text_of_lines before)) =
      Inr (foldl load_env_line Map.empty before)"
    by (rule load_env_file_lines [OF lines(3)])
  show ?thesis
  proof (intro conjI allI impI)
    show "load_env_file Missing = Inr Map.empty"
      by (rule missing)
  next
    assume "strip l = [] \<or> take 1 (strip l) = ''#'' \<or> CHR ''='' \<notin> set l"
    with skip show "load_env_file (Content (text_of_lines (before @ l # after))) =
            load_env_file (Content (text_of_lines (before @ after)))"
      by (rule mp)
  next
    fix k v
    assume h: "l = k @ ''='' @ v \<and> CHR ''='' \<notin> set k \<and> take 1 (strip l) \<noteq> ''#''"
    have "load_env_file (Content (text_of_lines (before @ [l]))) =
        Inr ((foldl load_env_line Map.empty before)(strip k \<mapsto>
              strip_chars [CHR 0x27] (strip_chars [CHR 0x22] (strip v))))"
      by (rule assign [of k v]) (use h in blast)+
    with before show "\<exists>env. load_env_file (Content (text_of_lines before)) = Inr env
               \<and> load_env_file (Content (text_of_lines (before @ [l]))) =
                   Inr (env(strip k \<mapsto>
                     strip_chars [CHR 0x27] (strip_chars [CHR 0x22] (strip v))))"
      by (intro exI conjI)
  next
    fix k q a t b
    assume h: "l = k @ ''='' @ a @ [q] @ t @ [q] @ b \<and> CHR ''='' \<notin> set k
              \<and> take 1 (strip l) \<noteq> ''#'' \<and> (q = CHR 0x22 \<or> q = CHR 0x27)
              \<and> (\<forall>c\<in>set a. is_space c) \<and> (\<forall>c\<in>set b. is_space c)
              \<and> (t = [] \<or> (hd t \<noteq> CHR 0x22 \<and> hd t \<noteq> CHR 0x27
                    \<and> last t \<noteq> CHR 0x22 \<and> last t \<noteq> CHR 0x27))"
    have "load_env_file (Content (text_of_lines (before @ [l]))) =
        Inr ((foldl load_env_line Map.empty before)(strip k \<mapsto> t))"
      by (rule quoted [of k a q t b]) (use h in blast)+
    with before show "\<exists>env. load_env_file (Content (text_of_lines before)) = Inr env
               \<and> load_env_file (Content (text_of_lines (before @ [l]))) = Inr (env(strip k \<mapsto> t))"
      by (intro exI conjI)
  qed
qed


text \<open>The loader on the configuration files of the fixtures.\<close>

lemmas strip_eval = load_env_line_def strip_def strip_chars_def strip_where_def is_space_def
  split_once_def Let_def

lemma env_text_read:
  "load_env_file (Content env_text) =
     Inr [''BINANCE_API_KEY'' \<mapsto> ''file key'', ''BINANCE_SECRET_KEY'' \<mapsto> ''a=b'']"
proof -
  have "\<forall>l\<in>set [''# Binance credentials'', [], ''BINANCE_API_KEY = '' @ [CHR 0x22] @ ''file key'' @ [CHR 0x22] @ ''  '',
      ''export'', ''BINANCE_SECRET_KEY='' @ [CHR 0x27] @ ''a=b'' @ [CHR 0x27]]. one_line l"
    by (simp add: one_line_def)
  from load_env_file_lines [OF this] show ?thesis
    unfolding env_text_def by (simp add: strip_eval)
qed

lemma env_text_empty_secret_read:
  "load_env_file (Content env_text_empty_secret) =
     Inr [''BINANCE_API_KEY'' \<mapsto> ''filekey'', ''BINANCE_SECRET_KEY'' \<mapsto> []]"
proof -
  have "\<forall>l\<in>set [''BINANCE_API_KEY=filekey'', ''BINANCE_SECRET_KEY='']. one_line l"
    by (simp add: one_line_def)
  from load_env_file_lines [OF this] show ?thesis
    unfolding env_text_empty_secret_def by (simp add: strip_eval)
qed


theorem load_env_file_reads_lines_witness:
  "load_env_file Missing = Inr Map.empty
   \<and> load_env_file (Content env_text) =
       load_env_file (Content (text_of_lines
         [''# Binance credentials'', [], ''BINANCE_API_KEY = '' @ [CHR 0x22] @ ''file key'' @ [CHR 0x22] @ ''  '',
          ''BINANCE_SECRET_KEY='' @ [CHR 0x27] @ ''a=b'' @ [CHR 0x27]]))
   \<and> (\<exists>env. load_env_file (Content (text_of_lines
         [''# Binance credentials'', [], ''BINANCE_API_KEY = '' @ [CHR 0x22] @ ''file key'' @ [CHR 0x22] @ ''  '',
          ''export''])) = Inr env
        \<and> load_env_file (Content env_text) = Inr (env(''BINANCE_SECRET_KEY'' \<mapsto> ''a=b'')))
   \<and> load_env_file (Content env_text) =
       Inr [''BINANCE_API_KEY'' \<mapsto> ''file key'', ''BINANCE_SECRET_KEY'' \<mapsto> ''a=b'']"
proof -
  let ?c = "''# Binance credentials''"
  let ?a = "''BINANCE_API_KEY = '' @ [CHR 0x22] @ ''file key'' @ [CHR 0x22] @ ''  ''"
  let ?s = "''BINANCE_SECRET_KEY='' @ [CHR 0x27] @ ''a=b'' @ [CHR 0x27]"
  have l1: "\<forall>x\<in>set ([?c, [], ?a] @ ''export'' # [?s]). one_line x"
    by (simp add: one_line_def)
  have l2: "\<forall>x\<in>set ([?c, [], ?a, ''export''] @ ?s # []). one_line x"
    by (simp add: one_line_def)
  note t1 = load_env_file_reads_lines [OF l1]
  note t2 = load_env_file_reads_lines [OF l2]
  have skip: "strip ''export'' = [] \<or> take 1 (strip ''export'') = ''#'' \<or> CHR ''='' \<notin> set ''export''"
    by simp
  have c2: "load_env_file (Content env_text) = load_env_file (Content (text_of_lines [?c, [], ?a, ?s]))"
    using t1 skip unfolding env_text_def by simp
  have q: "?s = ''BINANCE_SECRET_KEY'' @ ''='' @ [] @ [CHR 0x27] @ ''a=b'' @ [CHR 0x27] @ []
      \<and> CHR ''='' \<notin> set ''BINANCE_SECRET_KEY''
      \<and> take 1 (strip ?s) \<noteq> ''#'' \<and> (CHR 0x27 = CHR 0x22 \<or> CHR 0x27 = CHR 0x27)
      \<and> (\<forall>c\<in>set []. is_space c) \<and> (\<forall>c\<in>set []. is_space c)
      \<and> (''a=b'' = [] \<or> (hd ''a=b'' \<noteq> CHR 0x22 \<and> hd ''a=b'' \<noteq> CHR 0x27
            \<and> last ''a=b'' \<noteq> CHR 0x22 \<and> last ''a=b'' \<noteq> CHR 0x27))"
    by (simp add: strip_def strip_where_def is_space_def)
  have k: "strip ''BINANCE_SECRET_KEY'' = ''BINANCE_SECRET_KEY''"
    by (simp add: strip_def strip_where_def is_space_def)
  have "\<exists>env. load_env_file (Content (text_of_lines [?c, [], ?a, ''export''])) = Inr env
        \<and> load_env_file (Content (text_of_lines ([?c, [], ?a, ''export''] @ [?s]))) =
            Inr (env(strip ''BINANCE_SECRET_KEY'' \<mapsto> ''a=b''))"
    using t2 q by blast
  then have c3: "\<exists>env. load_env_file (Content (text_of_lines [?c, [], ?a, ''export''])) = Inr env
        \<and> load_env_file (Content env_text) = Inr (env(''BINANCE_SECRET_KEY'' \<mapsto> ''a=b''))"
    unfolding k env_text_def by simp
  show ?thesis
    using t1 c2 c3 env_text_read by blast
qed

section \<open>The credentials\<close>

text \<open>
  C7, as amended. For each of the two credentials: when the configuration file defines
  the key with a non-empty value, that value is the one used, whatever the environment
  holds; when the file does not define the key, or defines it with an empty value, the
  value of the environment variable is used. The credentials the module ends up with are
  these two values.
\<close>

theorem file_value_or_environment:
  assumes "load_env_file f = Inr env_vars"
  shows "(\<forall>v. env_vars key = Some v \<and> v \<noteq> [] \<longrightarrow> get_or_getenv env_vars environ key = Some v)
       \<and> (env_vars key = None \<or> env_vars key = Some [] \<longrightarrow>
            get_or_getenv env_vars environ key = environ key)
       \<and> (\<forall>a s. credentials f environ = Inr (a, s) \<longrightarrow>
            a = get_or_getenv env_vars environ ''BINANCE_API_KEY''
            \<and> s = get_or_getenv env_vars environ ''BINANCE_SECRET_KEY'')"
  using assms
  by (auto simp add: get_or_getenv_def credentials_def Let_def split: if_splits)

theorem file_value_or_environment_witness:
  "credentials (Content env_text) environ_both = Inr (Some ''file key'', Some ''a=b'')
   \<and> credentials Missing environ_both = Inr (Some ''envkey'', Some ''envsecret'')"
proof -
  have m: "load_env_file Missing = Inr Map.empty"
    by (simp add: load_env_file_def)
  note t1 = file_value_or_environment [OF env_text_read, where environ = environ_both]
  note t2 = file_value_or_environment [OF m, where environ = environ_both]
  have a: "get_or_getenv [''BINANCE_API_KEY'' \<mapsto> ''file key'', ''BINANCE_SECRET_KEY'' \<mapsto> ''a=b'']
      environ_both ''BINANCE_API_KEY'' = Some ''file key''"
    using t1 [where key = "''BINANCE_API_KEY''"] by simp
  have b: "get_or_getenv [''BINANCE_API_KEY'' \<mapsto> ''file key'', ''BINANCE_SECRET_KEY'' \<mapsto> ''a=b'']
      environ_both ''BINANCE_SECRET_KEY'' = Some ''a=b''"
    using t1 [where key = "''BINANCE_SECRET_KEY''"] by simp
  have c: "get_or_getenv Map.empty environ_both ''BINANCE_API_KEY'' = Some ''envkey''"
    using t2 [where key = "''BINANCE_API_KEY''"] by (simp add: environ_both_def)
  have d: "get_or_getenv Map.empty environ_both ''BINANCE_SECRET_KEY'' = Some ''envsecret''"
    using t2 [where key = "''BINANCE_SECRET_KEY''"] by (simp add: environ_both_def)
  show ?thesis
    by (simp add: credentials_def env_text_read m a b c d falsy_str_def)
qed

text \<open>
  A key that the file defines with an empty value does not count as defined: the
  file defines \<open>BINANCE_SECRET_KEY\<close>, and the secret used is the environment's.
\<close>

theorem empty_file_value_counterexample:
  "load_env_file (Content env_text_empty_secret) =
     Inr [''BINANCE_API_KEY'' \<mapsto> ''filekey'', ''BINANCE_SECRET_KEY'' \<mapsto> []]
   \<and> credentials (Content env_text_empty_secret) environ_both =
     Inr (Some ''filekey'', Some ''envsecret'')"
  by (simp add: env_text_empty_secret_read credentials_def get_or_getenv_def environ_both_def
      falsy_str_def)


end
